theory Spec2Isabelle
  imports Main "HOL-Library.AList" "HOL-Library.Multiset"
begin

section \<open>The GitHub code browser (src/index/code-browser.js)\<close>

text \<open>
  A shallow embedding of the class \<open>GitHubCodeBrowser\<close>. JavaScript strings are
  \<open>string\<close>, numbers that hold file sizes are \<open>int\<close>, a thrown exception is the
  \<open>Inl\<close> branch of a sum, and the instance fields are a record that every method takes
  and returns. The markup written into the page is not modelled; what a panel shows is a
  value of a datatype.
\<close>

subsection \<open>String primitives: \<open>split\<close>, \<open>join('/')\<close>, \<open>includes\<close>\<close>

text \<open>
  \<open>s.split(sep)\<close> for a one-character separator: never the empty array; the empty
  string gives one empty segment.
\<close>

fun split_on :: "char \<Rightarrow> string \<Rightarrow> string list" where
  "split_on sep [] = [[]]"
| "split_on sep (c # cs) =
     (if c = sep then [] # split_on sep cs
      else (case split_on sep cs of
              [] \<Rightarrow> [[c]]
            | w # ws \<Rightarrow> (c # w) # ws))"

abbreviation split_slash :: "string \<Rightarrow> string list" where
  "split_slash \<equiv> split_on (CHR ''/'')"

text \<open>\<open>segments.join('/')\<close>, used to reconstruct the full path of a tree position.\<close>

fun join_slash :: "string list \<Rightarrow> string" where
  "join_slash [] = []"
| "join_slash [s] = s"
| "join_slash (s # t # ss) = s @ CHR ''/'' # join_slash (t # ss)"

text \<open>\<open>s.includes(pat)\<close>: \<open>pat\<close> occurs in \<open>s\<close> as a contiguous substring.\<close>

fun starts_with :: "string \<Rightarrow> string \<Rightarrow> bool" where
  "starts_with s [] = True"
| "starts_with [] (p # ps) = False"
| "starts_with (c # cs) (p # ps) = (c = p \<and> starts_with cs ps)"

fun includes_str :: "string \<Rightarrow> string \<Rightarrow> bool" where
  "includes_str [] pat = (pat = [])"
| "includes_str (c # cs) pat = (starts_with (c # cs) pat \<or> includes_str cs pat)"

subsection \<open>Data model\<close>

text \<open>An entry of the recursive tree listing of the GitHub API (\<open>treeData.tree\<close>).\<close>

record item =
  path :: string
  itype :: string
  sha :: string
  size_bytes :: int

text \<open>
  The object literal \<open>{type: 'file', path, sha, size}\<close> that \<open>buildFileTree\<close> stores
  for a file.
\<close>

record fileNode =
  fpath :: string
  fsha :: string
  fsize :: int

text \<open>
  A JavaScript object used as a dictionary (\<open>tree\<close> and every \<open>children\<close>): its own
  properties in insertion order, and its prototype. Such an object starts as \<open>{}\<close>,
  whose prototype is \<open>Object.prototype\<close> (\<open>None\<close>); assigning a file object to the key
  \<open>__proto__\<close> runs the inherited setter and makes that file object the prototype
  (\<open>Some f\<close>) instead of creating a property.
\<close>

datatype node =
    File fileNode
  | Folder "(string \<times> node) list" "fileNode option"

type_synonym jsobj = "(string \<times> node) list \<times> fileNode option"

datatype error = TypeError | FetchRejected | HttpError string | InvalidCharacterError

text \<open>The properties every plain object inherits from \<open>Object.prototype\<close>.\<close>

definition objectPrototypeNames :: "string list" where
  "objectPrototypeNames =
     [''__proto__'', ''constructor'', ''hasOwnProperty'', ''isPrototypeOf'',
      ''propertyIsEnumerable'', ''toLocaleString'', ''toString'', ''valueOf'',
      ''__defineGetter__'', ''__defineSetter__'', ''__lookupGetter__'',
      ''__lookupSetter__'']"

text \<open>
  What \<open>current[part]\<close> evaluates to: a node stored as an own property, \<open>undefined\<close>
  or another falsy value, or a truthy inherited value (a function, a prototype object, a
  non-empty string, a non-zero number), none of which has a \<open>children\<close> property.
\<close>

datatype lookup = OwnNode node | Falsy | InheritedTruthy

fun getProp :: "jsobj \<Rightarrow> string \<Rightarrow> lookup" where
  "getProp (props, pr) k =
     (case map_of props k of
        Some n \<Rightarrow> OwnNode n
      | None \<Rightarrow>
          (case pr of
             None \<Rightarrow> if k \<in> set objectPrototypeNames then InheritedTruthy else Falsy
           | Some f \<Rightarrow>
               if k = ''type'' then InheritedTruthy
               else if k = ''path'' then (if fpath f = [] then Falsy else InheritedTruthy)
               else if k = ''sha'' then (if fsha f = [] then Falsy else InheritedTruthy)
               else if k = ''size'' then (if fsize f = 0 then Falsy else InheritedTruthy)
               else if k \<in> set objectPrototypeNames then InheritedTruthy
               else Falsy))"

text \<open>
  \<open>current[part] = {type: 'folder', children: ...}\<close>: an own property, replaced in
  place when the key exists and added last otherwise. It is only executed when
  \<open>current[part]\<close> is falsy, hence never for the key \<open>__proto__\<close>.
\<close>

fun setOwn :: "jsobj \<Rightarrow> string \<Rightarrow> node \<Rightarrow> jsobj" where
  "setOwn (props, pr) k n = (AList.update k n props, pr)"

text \<open>\<open>current[part] = {type: 'file', ...}\<close>.\<close>

fun setFile :: "jsobj \<Rightarrow> string \<Rightarrow> fileNode \<Rightarrow> jsobj" where
  "setFile (props, pr) k f =
     (if k = ''__proto__'' then (props, Some f) else (AList.update k (File f) props, pr))"

definition mkFile :: "item \<Rightarrow> fileNode" where
  "mkFile file = \<lparr>fpath = path file, fsha = sha file, fsize = size_bytes file\<rparr>"

subsection \<open>\<open>buildFileTree\<close>\<close>

text \<open>
  The inner \<open>for\<close> loop over \<open>parts\<close>, from the object \<open>current\<close> on. The last part
  stores the file. Any other part descends into \<open>current[part].children\<close>, after
  creating an empty folder when \<open>current[part]\<close> is falsy. When \<open>current[part]\<close> is
  a file or an inherited value, \<open>children\<close> is \<open>undefined\<close> and the next iteration,
  which always exists, throws a \<open>TypeError\<close>.
\<close>

fun walk :: "jsobj \<Rightarrow> string list \<Rightarrow> fileNode \<Rightarrow> error + jsobj" where
  "walk cur [] f = Inr cur"
| "walk cur [part] f = Inr (setFile cur part f)"
| "walk cur (part # rest) f =
     (case getProp cur part of
        Falsy \<Rightarrow>
          (case walk ([], None) rest f of
             Inl e \<Rightarrow> Inl e
           | Inr (ch, p) \<Rightarrow> Inr (setOwn cur part (Folder ch p)))
      | OwnNode (Folder ch p) \<Rightarrow>
          (case walk (ch, p) rest f of
             Inl e \<Rightarrow> Inl e
           | Inr (ch', p') \<Rightarrow> Inr (setOwn cur part (Folder ch' p')))
      | OwnNode (File g) \<Rightarrow> Inl TypeError
      | InheritedTruthy \<Rightarrow> Inl TypeError)"

text \<open>\<open>this.excludedPaths.some(excluded => file.path.includes(excluded))\<close>\<close>

definition isExcluded :: "string list \<Rightarrow> item \<Rightarrow> bool" where
  "isExcluded excludedPaths file = list_ex (\<lambda>excluded. includes_str (path file) excluded) excludedPaths"

text \<open>The body of \<open>files.forEach\<close>, and the loop itself; an exception ends the loop.\<close>

definition addFile :: "string list \<Rightarrow> jsobj \<Rightarrow> item \<Rightarrow> error + jsobj" where
  "addFile excludedPaths tree file =
     (if isExcluded excludedPaths file then Inr tree
      else walk tree (split_slash (path file)) (mkFile file))"

fun forEachFile :: "string list \<Rightarrow> item list \<Rightarrow> jsobj \<Rightarrow> error + jsobj" where
  "forEachFile excludedPaths [] tree = Inr tree"
| "forEachFile excludedPaths (file # files) tree =
     (case addFile excludedPaths tree file of
        Inl e \<Rightarrow> Inl e
      | Inr tree' \<Rightarrow> forEachFile excludedPaths files tree')"

definition buildFileTree :: "string list \<Rightarrow> item list \<Rightarrow> error + jsobj" where
  "buildFileTree excludedPaths files = forEachFile excludedPaths files ([], None)"

text \<open>
  A position of a built tree: \<open>leaf_at tree names f\<close> holds when following the own
  properties \<open>names\<close> from the root leads through folders to the file object \<open>f\<close>.
  The reconstructed full path of that leaf is \<open>join_slash names\<close>.
\<close>

fun leaf_at :: "jsobj \<Rightarrow> string list \<Rightarrow> fileNode \<Rightarrow> bool" where
  "leaf_at obj [] f = False"
| "leaf_at (props, pr) [name] f = (map_of props name = Some (File f))"
| "leaf_at (props, pr) (name # rest) f =
     (case map_of props name of
        Some (Folder ch p) \<Rightarrow> leaf_at (ch, p) rest f
      | _ \<Rightarrow> False)"

subsection \<open>\<open>createTreeElement\<close>: the order of the entries\<close>

text \<open>
  \<open>Object.keys(tree)\<close>: the own keys that are array indices (canonical decimal
  numerals below \<open>2^32 - 1\<close>) in ascending numeric order, then the other keys in
  insertion order.
\<close>

definition decimal :: "string \<Rightarrow> nat" where
  "decimal s = foldl (\<lambda>n c. 10 * n + (of_char c - 48)) 0 s"

definition isDigit :: "char \<Rightarrow> bool" where
  "isDigit c = (48 \<le> (of_char c :: nat) \<and> (of_char c :: nat) \<le> 57)"

definition isArrayIndex :: "string \<Rightarrow> bool" where
  "isArrayIndex s =
     (s \<noteq> [] \<and> list_all isDigit s \<and> (s = ''0'' \<or> hd s \<noteq> CHR ''0'') \<and> decimal s < 4294967295)"

definition objectKeys :: "jsobj \<Rightarrow> string list" where
  "objectKeys tree =
     (let ks = map fst (fst tree)
      in sort_key decimal (filter isArrayIndex ks) @ filter (\<lambda>k. \<not> isArrayIndex k) ks)"

text \<open>\<open>tree[a].type === 'folder'\<close>, for an own key \<open>a\<close> of \<open>tree\<close>.\<close>

definition isFolderAt :: "jsobj \<Rightarrow> string \<Rightarrow> bool" where
  "isFolderAt tree a = (case map_of (fst tree) a of Some (Folder ch p) \<Rightarrow> True | _ \<Rightarrow> False)"

text \<open>
  The comparison function handed to \<open>sort\<close>. \<open>a.localeCompare(b)\<close> depends on the
  locale of the host and is a parameter.
\<close>

definition compareEntries :: "(string \<Rightarrow> string \<Rightarrow> int) \<Rightarrow> jsobj \<Rightarrow> string \<Rightarrow> string \<Rightarrow> int" where
  "compareEntries localeCompare tree a b =
     (let aIsFolder = isFolderAt tree a; bIsFolder = isFolderAt tree b
      in if aIsFolder \<and> \<not> bIsFolder then - 1
         else if \<not> aIsFolder \<and> bIsFolder then 1
         else localeCompare a b)"

text \<open>
  \<open>Array.prototype.sort(compare)\<close> is a stable sort; it is modelled by insertion
  from the right, which keeps elements that compare equal in their original order.
\<close>

fun insert_sorted :: "('a \<Rightarrow> 'a \<Rightarrow> int) \<Rightarrow> 'a \<Rightarrow> 'a list \<Rightarrow> 'a list" where
  "insert_sorted compare x [] = [x]"
| "insert_sorted compare x (y # ys) =
     (if compare x y \<le> 0 then x # y # ys else y # insert_sorted compare x ys)"

definition array_sort :: "('a \<Rightarrow> 'a \<Rightarrow> int) \<Rightarrow> 'a list \<Rightarrow> 'a list" where
  "array_sort compare xs = foldr (insert_sorted compare) xs []"

definition entries :: "(string \<Rightarrow> string \<Rightarrow> int) \<Rightarrow> jsobj \<Rightarrow> string list" where
  "entries localeCompare tree = array_sort (compareEntries localeCompare tree) (objectKeys tree)"

text \<open>
  The list \<open>ul\<close> that \<open>createTreeElement\<close> returns: one \<open>li\<close> per entry, in the
  order of \<open>entries\<close>. A folder entry carries its name and the nested list of its
  children; a file entry carries its name and the arguments \<open>item.path\<close> and
  \<open>item.size\<close> that its click handler passes to \<open>selectFile\<close>.
\<close>

datatype element = FolderLi string "element list" | FileLi string string int

lemma map_of_size_less:
  "map_of props k = Some (Folder ch p) \<Longrightarrow>
     size_list (size_prod (\<lambda>_. 0) size) ch < size_list (size_prod (\<lambda>_. 0) size) props"
  by (induction props) (auto split: if_splits)

function createTreeElement :: "(string \<Rightarrow> string \<Rightarrow> int) \<Rightarrow> jsobj \<Rightarrow> string \<Rightarrow> element list" where
  "createTreeElement localeCompare (props, pr) prefix =
     map (\<lambda>name.
            case map_of props name of
              Some (Folder ch p) \<Rightarrow>
                FolderLi name (createTreeElement localeCompare (ch, p) (prefix @ name @ ''/''))
            | Some (File f) \<Rightarrow> FileLi name (fpath f) (fsize f)
            | None \<Rightarrow> FileLi name [] 0)
         (entries localeCompare (props, pr))"
  by pat_completeness auto
termination
  by (relation "measure (\<lambda>(lc, (props, pr), prefix). size_list (size_prod (\<lambda>_. 0) size) props)")
     (auto dest: map_of_size_less)

text \<open>
  A comparison function that \<open>sort\<close> can rely on (a consistent comparator): the sign
  of \<open>compare a b\<close> is opposite to that of \<open>compare b a\<close>, and \<open>\<le> 0\<close> is transitive.
\<close>

definition consistent :: "('a \<Rightarrow> 'a \<Rightarrow> int) \<Rightarrow> bool" where
  "consistent compare =
     ((\<forall>a b. 0 < compare a b \<longrightarrow> compare b a < 0) \<and>
      (\<forall>a b c. compare a b \<le> 0 \<and> compare b c \<le> 0 \<longrightarrow> compare a c \<le> 0))"

text \<open>Comparison by code units, one consistent comparator among many.\<close>

fun codeUnitCompare :: "string \<Rightarrow> string \<Rightarrow> int" where
  "codeUnitCompare [] [] = 0"
| "codeUnitCompare [] (y # ys) = - 1"
| "codeUnitCompare (x # xs) [] = 1"
| "codeUnitCompare (x # xs) (y # ys) =
     (if (of_char x :: nat) < of_char y then - 1
      else if (of_char y :: nat) < of_char x then 1
      else codeUnitCompare xs ys)"

text \<open>
  The order of one rendered list: no file entry stands before a folder entry, and of
  two entries of the same kind the earlier one does not compare greater than the later
  one. \<open>all_ordered\<close> asks this of every list nested in an entry.
\<close>

fun liName :: "element \<Rightarrow> string" where
  "liName (FolderLi name children) = name"
| "liName (FileLi name itemPath itemSize) = name"

fun isFolderLi :: "element \<Rightarrow> bool" where
  "isFolderLi (FolderLi name children) = True"
| "isFolderLi (FileLi name itemPath itemSize) = False"

definition ordered_ul :: "(string \<Rightarrow> string \<Rightarrow> int) \<Rightarrow> element list \<Rightarrow> bool" where
  "ordered_ul localeCompare ul =
     sorted_wrt (\<lambda>a b. (isFolderLi a \<or> \<not> isFolderLi b) \<and>
                        (isFolderLi a = isFolderLi b \<longrightarrow> localeCompare (liName a) (liName b) \<le> 0)) ul"

fun all_ordered :: "(string \<Rightarrow> string \<Rightarrow> int) \<Rightarrow> element \<Rightarrow> bool" where
  "all_ordered localeCompare (FileLi name itemPath itemSize) = True"
| "all_ordered localeCompare (FolderLi name children) =
     (ordered_ul localeCompare children \<and> (\<forall>e\<in>set children. all_ordered localeCompare e))"

subsection \<open>The instance and the network\<close>

text \<open>What \<open>.file-tree-container\<close> and \<open>.file-viewer\<close> show.\<close>

datatype treePanel = TreeLoading | TreeRendered "element list" | TreeError string

datatype viewer = Placeholder | Message string | FileDisplayed string string

text \<open>
  The fields of an instance. \<open>requests\<close> is not a field of the class: it records
  every URL passed to \<open>fetch\<close> so far, oldest first. \<open>selected\<close> is the path of the
  tree entry that carries the class \<open>selected\<close>. The field \<open>selectedFile\<close> of the
  class is set to \<open>null\<close> and never used, and is left out.
\<close>

record browser =
  owner :: string
  repo :: string
  branch :: string
  maxFileSize :: int
  excludedPaths :: "string list"
  fileTree :: "jsobj option"
  treePanel :: treePanel
  viewer :: viewer
  selected :: "string option"
  requests :: "string list"

text \<open>
  The outcome of \<open>await fetch(url)\<close> followed by \<open>response.json()\<close>: the promise is
  rejected, or the response is not \<open>ok\<close> and has a status text, or it is \<open>ok\<close> and
  carries the fields the caller reads.
\<close>

datatype 'a response = Rejected | NotOk string | Ok 'a

text \<open>
  The GitHub API as the component sees it, one function per endpoint: the answer may
  depend on the requests made before and on the URL. The branch endpoint yields
  \<open>commit.commit.tree.sha\<close>, the tree endpoint \<open>tree\<close>, the contents endpoint
  \<open>encoding\<close> and \<open>content\<close>.
\<close>

record network =
  getBranch :: "string list \<Rightarrow> string \<Rightarrow> string response"
  getTree :: "string list \<Rightarrow> string \<Rightarrow> item list response"
  getContents :: "string list \<Rightarrow> string \<Rightarrow> (string \<times> string) response"

definition branchUrl :: "browser \<Rightarrow> string" where
  "branchUrl b = ''https://api.github.com/repos/'' @ owner b @ ''/'' @ repo b @ ''/branches/'' @ branch b"

definition treeUrl :: "browser \<Rightarrow> string \<Rightarrow> string" where
  "treeUrl b treeSha =
     ''https://api.github.com/repos/'' @ owner b @ ''/'' @ repo b @ ''/git/trees/'' @ treeSha @ ''?recursive=1''"

definition contentsUrl :: "browser \<Rightarrow> string \<Rightarrow> string" where
  "contentsUrl b p =
     ''https://api.github.com/repos/'' @ owner b @ ''/'' @ repo b @ ''/contents/'' @ p @ ''?ref='' @ branch b"

subsection \<open>\<open>fetchRepositoryTree\<close> and \<open>loadRepository\<close>\<close>

function fetchRepositoryTree :: "network \<Rightarrow> browser \<Rightarrow> (error + item list) \<times> browser" where
  "fetchRepositoryTree net b =
     (let b1 = b\<lparr>requests := requests b @ [branchUrl b]\<rparr>
      in case getBranch net (requests b) (branchUrl b) of
           Rejected \<Rightarrow> (Inl FetchRejected, b1)
         | NotOk statusText \<Rightarrow>
             if branch b1 = ''main'' then fetchRepositoryTree net (b1\<lparr>branch := ''master''\<rparr>)
             else (Inl (HttpError (''Failed to fetch branch: '' @ statusText)), b1)
         | Ok treeSha \<Rightarrow>
             (let b2 = b1\<lparr>requests := requests b1 @ [treeUrl b1 treeSha]\<rparr>
              in case getTree net (requests b1) (treeUrl b1 treeSha) of
                   Rejected \<Rightarrow> (Inl FetchRejected, b2)
                 | NotOk statusText \<Rightarrow>
                     (Inl (HttpError (''Failed to fetch tree: '' @ statusText)), b2)
                 | Ok tree \<Rightarrow> (Inr (filter (\<lambda>item. itype item = ''blob'') tree), b2)))"
  by pat_completeness auto
termination
  by (relation "measure (\<lambda>(net, b). if branch b = ''main'' then 1 else 0)") auto

definition showError :: "browser \<Rightarrow> string \<Rightarrow> browser" where
  "showError b message = b\<lparr>treePanel := TreeError message\<rparr>"

definition renderFileTree :: "(string \<Rightarrow> string \<Rightarrow> int) \<Rightarrow> browser \<Rightarrow> browser" where
  "renderFileTree localeCompare b =
     (case fileTree b of
        None \<Rightarrow> b
      | Some tree \<Rightarrow> b\<lparr>treePanel := TreeRendered (createTreeElement localeCompare tree [])\<rparr>)"

definition loadRepository :: "(string \<Rightarrow> string \<Rightarrow> int) \<Rightarrow> network \<Rightarrow> browser \<Rightarrow> browser" where
  "loadRepository localeCompare net b =
     (case fetchRepositoryTree net b of
        (Inl e, b') \<Rightarrow> showError b' ''Failed to load repository. Make sure the repository is public.''
      | (Inr tree, b') \<Rightarrow>
          (case buildFileTree (excludedPaths b') tree of
             Inl e \<Rightarrow> showError b' ''Failed to load repository. Make sure the repository is public.''
           | Inr t \<Rightarrow> renderFileTree localeCompare (b'\<lparr>fileTree := Some t\<rparr>)))"

subsection \<open>\<open>selectFile\<close> and \<open>fetchFileContent\<close>\<close>

text \<open>
  Modelled from the spec: \<open>atob\<close>, a function of the platform and not of this
  repository, which decodes base64 content (\<open>aGVsbG8=\<close> gives \<open>hello\<close>). The model
  follows the forgiving-base64 decode of the WHATWG Infra standard: ASCII
  whitespace is removed, one or two padding characters are removed from a length that
  is a multiple of four, a length of one modulo four or a character outside the
  alphabet is an \<open>InvalidCharacterError\<close>, and every character contributes six bits
  to the bytes of the result.
\<close>

definition b64_value :: "char \<Rightarrow> nat option" where
  "b64_value c =
     (let n = (of_char c :: nat)
      in if 65 \<le> n \<and> n \<le> 90 then Some (n - 65)
         else if 97 \<le> n \<and> n \<le> 122 then Some (n - 71)
         else if 48 \<le> n \<and> n \<le> 57 then Some (n + 4)
         else if n = 43 then Some 62
         else if n = 47 then Some 63
         else None)"

fun b64_bytes :: "nat list \<Rightarrow> nat list" where
  "b64_bytes (a # b # c # d # rest) =
     (let n = ((a * 64 + b) * 64 + c) * 64 + d
      in n div 65536 # (n div 256) mod 256 # n mod 256 # b64_bytes rest)"
| "b64_bytes [a, b, c] = (let n = ((a * 64 + b) * 64 + c) div 4 in [n div 256, n mod 256])"
| "b64_bytes [a, b] = [(a * 64 + b) div 16]"
| "b64_bytes [a] = []"
| "b64_bytes [] = []"

definition isAsciiWhitespace :: "char \<Rightarrow> bool" where
  "isAsciiWhitespace c = ((of_char c :: nat) \<in> {9, 10, 12, 13, 32})"

definition stripPadding :: "string \<Rightarrow> string" where
  "stripPadding s =
     (if length s mod 4 = 0 \<and> s \<noteq> [] \<and> last s = CHR ''='' then
        (if butlast s \<noteq> [] \<and> last (butlast s) = CHR ''='' then butlast (butlast s) else butlast s)
      else s)"

definition atob :: "string \<Rightarrow> error + string" where
  "atob s =
     (let stripped = stripPadding (filter (\<lambda>c. \<not> isAsciiWhitespace c) s)
      in if length stripped mod 4 = 1 then Inl InvalidCharacterError
         else if list_ex (\<lambda>c. b64_value c = None) stripped then Inl InvalidCharacterError
         else Inr (map char_of (b64_bytes (map (\<lambda>c. the (b64_value c)) stripped))))"

text \<open>
  \<open>formatFileSize\<close>. For a size that is an integer below \<open>2^53\<close> the quotients are
  exact, and \<open>toFixed(1)\<close> rounds the tenths, a tie upwards.
\<close>

function showNat :: "nat \<Rightarrow> string" where
  "showNat n = (if n < 10 then [char_of (48 + n)] else showNat (n div 10) @ [char_of (48 + n mod 10)])"
  by pat_completeness auto
termination
  by (relation "measure id") auto

definition showInt :: "int \<Rightarrow> string" where
  "showInt i = (if i < 0 then CHR ''-'' # showNat (nat (- i)) else showNat (nat i))"

definition toFixed1 :: "int \<Rightarrow> int \<Rightarrow> string" where
  "toFixed1 bytes unit =
     (let n = (20 * bytes + unit) div (2 * unit) in showInt (n div 10) @ ''.'' @ showInt (n mod 10))"

definition formatFileSize :: "int \<Rightarrow> string" where
  "formatFileSize bytes =
     (if bytes < 1024 then showInt bytes @ '' B''
      else if bytes < 1024 * 1024 then toFixed1 bytes 1024 @ '' KB''
      else toFixed1 bytes (1024 * 1024) @ '' MB'')"

definition showFileViewer :: "browser \<Rightarrow> string \<Rightarrow> browser" where
  "showFileViewer b message = b\<lparr>viewer := Message message\<rparr>"

text \<open>
  \<open>displayFile\<close>: of the markup it writes, the model keeps the path in the header and
  the text in the code element.
\<close>

definition displayFile :: "browser \<Rightarrow> string \<Rightarrow> string \<Rightarrow> browser" where
  "displayFile b filePath content = b\<lparr>viewer := FileDisplayed filePath content\<rparr>"

definition fetchFileContent :: "network \<Rightarrow> browser \<Rightarrow> string \<Rightarrow> (error + string) \<times> browser" where
  "fetchFileContent net b filePath =
     (let b1 = b\<lparr>requests := requests b @ [contentsUrl b filePath]\<rparr>
      in case getContents net (requests b) (contentsUrl b filePath) of
           Rejected \<Rightarrow> (Inl FetchRejected, b1)
         | NotOk statusText \<Rightarrow> (Inl (HttpError (''Failed to fetch file: '' @ statusText)), b1)
         | Ok (encoding, content) \<Rightarrow>
             if encoding = ''base64'' then
               (case atob content of Inl e \<Rightarrow> (Inl e, b1) | Inr decoded \<Rightarrow> (Inr decoded, b1))
             else (Inr content, b1))"

text \<open>
  \<open>selectFile\<close>, run to the end of its \<open>await\<close>. It is only called from the click
  handler of a file entry, where \<open>event.currentTarget\<close> is that entry.
\<close>

definition selectFile :: "network \<Rightarrow> string \<Rightarrow> int \<Rightarrow> browser \<Rightarrow> browser" where
  "selectFile net filePath fileSize b =
     (let b0 = b\<lparr>selected := Some filePath\<rparr>
      in if fileSize > maxFileSize b0 then
           showFileViewer b0
             (''File too large to display ('' @ formatFileSize fileSize @ ''). Please view on GitHub.'')
         else
           (case fetchFileContent net (showFileViewer b0 ''Loading file...'') filePath of
              (Inl e, b2) \<Rightarrow>
                showFileViewer b2 ''Failed to load file. Please try again or view on GitHub.''
            | (Inr content, b2) \<Rightarrow> displayFile b2 filePath content))"

text \<open>A sequence of clicks on file entries, each given by the path and size of its item.\<close>

fun selectFiles :: "network \<Rightarrow> (string \<times> int) list \<Rightarrow> browser \<Rightarrow> browser" where
  "selectFiles net [] b = b"
| "selectFiles net ((filePath, fileSize) # clicks) b = selectFiles net clicks (selectFile net filePath fileSize b)"

subsection \<open>The constructor and the initialisation from the page\<close>

text \<open>
  \<open>repoUrl.match(/github\.com\/([^\/]+)\/([^\/]+)/)\<close>: the leftmost place where
  \<open>github.com/\<close> is followed by a non-empty run without a slash, a slash, and a second
  such run; both runs are maximal.
\<close>

definition matchHere :: "string \<Rightarrow> (string \<times> string) option" where
  "matchHere s =
     (if starts_with s ''github.com/'' then
        (let rest = drop 11 s;
             g1 = takeWhile (\<lambda>c. c \<noteq> CHR ''/'') rest;
             after1 = dropWhile (\<lambda>c. c \<noteq> CHR ''/'') rest
         in if g1 = [] \<or> after1 = [] then None
            else (let g2 = takeWhile (\<lambda>c. c \<noteq> CHR ''/'') (tl after1)
                  in if g2 = [] then None else Some (g1, g2)))
      else None)"

fun matchRepoUrl :: "string \<Rightarrow> (string \<times> string) option" where
  "matchRepoUrl [] = None"
| "matchRepoUrl (c # cs) =
     (case matchHere (c # cs) of Some m \<Rightarrow> Some m | None \<Rightarrow> matchRepoUrl cs)"

text \<open>\<open>match[2].replace(/\.git$/, '')\<close>\<close>

definition stripGitSuffix :: "string \<Rightarrow> string" where
  "stripGitSuffix s =
     (if 4 \<le> length s \<and> drop (length s - 4) s = ''.git'' then take (length s - 4) s else s)"

text \<open>The \<open>options\<close> argument; \<open>None\<close> is a property that is absent.\<close>

record options =
  optBranch :: "string option"
  optMaxFileSize :: "int option"
  optExcludedPaths :: "string list option"

definition defaultExcludedPaths :: "string list" where
  "defaultExcludedPaths =
     [''.git'', ''node_modules'', ''.vs'', ''Binaries'', ''DerivedDataCache'', ''Intermediate'',
      ''Saved'', ''Build'']"

text \<open>
  The constructor up to and including \<open>render()\<close>; \<open>None\<close> when it returns early
  (no container, or a URL that does not match). \<open>loadRepository\<close> then runs on the
  result. An empty string and the number zero are falsy and give way to the default; an
  array never does, not even the empty one.
\<close>

definition newBrowser :: "bool \<Rightarrow> string \<Rightarrow> options \<Rightarrow> browser option" where
  "newBrowser containerFound repoUrl opts =
     (if \<not> containerFound then None
      else case matchRepoUrl repoUrl of
             None \<Rightarrow> None
           | Some (m1, m2) \<Rightarrow>
               Some \<lparr>owner = m1,
                     repo = stripGitSuffix m2,
                     branch = (case optBranch opts of
                                 None \<Rightarrow> ''main''
                               | Some s \<Rightarrow> if s = [] then ''main'' else s),
                     maxFileSize = (case optMaxFileSize opts of
                                      None \<Rightarrow> 100000
                                    | Some n \<Rightarrow> if n = 0 then 100000 else n),
                     excludedPaths = (case optExcludedPaths opts of
                                        None \<Rightarrow> defaultExcludedPaths
                                      | Some paths \<Rightarrow> paths),
                     fileTree = None,
                     treePanel = TreeLoading,
                     viewer = Placeholder,
                     selected = None,
                     requests = []\<rparr>)"

text \<open>
  An element that carries \<open>data-code-browser\<close>: its \<open>id\<close> and its attributes, \<open>None\<close>
  for an attribute that is absent.
\<close>

record domElement =
  elementId :: string
  dataRepoUrl :: "string option"
  dataBranch :: "string option"
  dataMaxFileSize :: "string option"
  dataExcludedPaths :: "string option"

text \<open>
  The body of the \<open>DOMContentLoaded\<close> handler for one element. The platform function
  \<open>parseInt\<close> is a parameter (\<open>None\<close> is \<open>NaN\<close>). The container is looked up by
  \<open>element.id\<close> and is found unless the id is empty; a missing \<open>data-repo-url\<close>
  then makes \<open>repoUrl.match\<close> throw.
\<close>

definition autoInit :: "(string \<Rightarrow> int option) \<Rightarrow> domElement \<Rightarrow> error + browser option" where
  "autoInit parseInt element =
     (let branchName = (case dataBranch element of
                          None \<Rightarrow> ''main''
                        | Some s \<Rightarrow> if s = [] then ''main'' else s);
          maxSize = (case dataMaxFileSize element of
                       None \<Rightarrow> 100000
                     | Some s \<Rightarrow>
                         (case parseInt s of
                            None \<Rightarrow> 100000
                          | Some n \<Rightarrow> if n = 0 then 100000 else n));
          excludedPathsArray = (case dataExcludedPaths element of
                                  None \<Rightarrow> []
                                | Some s \<Rightarrow> if s = [] then [] else split_on (CHR '','') s)
      in if elementId element = [] then Inr None
         else case dataRepoUrl element of
                None \<Rightarrow> Inl TypeError
              | Some repoUrl \<Rightarrow>
                  Inr (newBrowser True repoUrl
                         \<lparr>optBranch = Some branchName,
                          optMaxFileSize = Some maxSize,
                          optExcludedPaths = Some excludedPathsArray\<rparr>))"

subsection \<open>Listings of a file system\<close>

text \<open>
  Predicates used to state when the builder succeeds. A tree is plain when none of its
  objects had its prototype replaced. One list of segments is a proper prefix of
  another when the second continues the first by at least one segment.
\<close>

fun plain_node :: "node \<Rightarrow> bool" where
  "plain_node (File f) = True"
| "plain_node (Folder ch p) = (p = None \<and> (\<forall>x\<in>set ch. plain_node (snd x)))"

definition plain_obj :: "jsobj \<Rightarrow> bool" where
  "plain_obj obj = (snd obj = None \<and> (\<forall>x\<in>set (fst obj). plain_node (snd x)))"

definition properPrefix :: "'a list \<Rightarrow> 'a list \<Rightarrow> bool" where
  "properPrefix xs ys = (length xs < length ys \<and> take (length xs) ys = xs)"

text \<open>
  The paths of the files of a directory tree: no two files share a path, no file lies
  below another file, and, in addition, no segment is the name of a property that
  \<open>{}\<close> inherits.
\<close>

definition fileSystemListing :: "item list \<Rightarrow> bool" where
  "fileSystemListing files =
     (distinct (map path files) \<and>
      (\<forall>a\<in>set files. \<forall>s\<in>set (split_slash (path a)). s \<notin> set objectPrototypeNames) \<and>
      (\<forall>a\<in>set files. \<forall>b\<in>set files.
          \<not> properPrefix (split_slash (path a)) (split_slash (path b))))"

subsection \<open>Notions used to state the behaviour of loading\<close>

text \<open>
  The error state of the tree panel with its message; the requests an operation added
  to the trace; the requests that ask for a branch of this repository; and the instance
  as \<open>fetchRepositoryTree\<close> leaves it when it falls back from \<open>main\<close> to
  \<open>master\<close>.
\<close>

definition loadFailed :: "browser \<Rightarrow> browser" where
  "loadFailed b = b\<lparr>treePanel := TreeError ''Failed to load repository. Make sure the repository is public.''\<rparr>"

definition isBranchRequest :: "browser \<Rightarrow> string \<Rightarrow> bool" where
  "isBranchRequest b url =
     starts_with url (''https://api.github.com/repos/'' @ owner b @ ''/'' @ repo b @ ''/branches/'')"

definition newRequests :: "browser \<Rightarrow> browser \<Rightarrow> string list" where
  "newRequests before after = drop (length (requests before)) (requests after)"

definition retryWithMaster :: "browser \<Rightarrow> browser" where
  "retryWithMaster b = b\<lparr>requests := requests b @ [branchUrl b], branch := ''master''\<rparr>"

section \<open>Examples used below\<close>

definition exampleBrowser :: browser where
  "exampleBrowser =
     \<lparr>owner = ''kealmcking'', repo = ''Portfolio'', branch = ''main'', maxFileSize = 100000,
      excludedPaths = defaultExcludedPaths, fileTree = None, treePanel = TreeLoading,
      viewer = Placeholder, selected = None, requests = []\<rparr>"

definition exampleElement :: domElement where
  "exampleElement =
     \<lparr>elementId = ''code-browser'',
      dataRepoUrl = Some ''https://github.com/kealmcking/Portfolio'',
      dataBranch = None, dataMaxFileSize = None, dataExcludedPaths = None\<rparr>"

text \<open>A network on which every request is rejected.\<close>

definition offline :: network where
  "offline = \<lparr>getBranch = (\<lambda>h u. Rejected), getTree = (\<lambda>h u. Rejected), getContents = (\<lambda>h u. Rejected)\<rparr>"

definition blob :: "string \<Rightarrow> string \<Rightarrow> int \<Rightarrow> item" where
  "blob p s n = \<lparr>path = p, itype = ''blob'', sha = s, size_bytes = n\<rparr>"

definition exampleFiles :: "item list" where
  "exampleFiles =
     [blob ''README.md'' ''8b1a9953'' 1200,
      blob ''src/main.cpp'' ''c3ab8ff1'' 5300,
      blob ''node_modules/x/index.js'' ''fe5dbbce'' 40,
      blob ''src/ui/Widget.h'' ''0cc175b9'' 870]"

definition exampleTree :: jsobj where
  "exampleTree =
     ([(''README.md'', File \<lparr>fpath = ''README.md'', fsha = ''8b1a9953'', fsize = 1200\<rparr>),
       (''src'',
        Folder
          [(''main.cpp'', File \<lparr>fpath = ''src/main.cpp'', fsha = ''c3ab8ff1'', fsize = 5300\<rparr>),
           (''ui'',
            Folder
              [(''Widget.h'', File \<lparr>fpath = ''src/ui/Widget.h'', fsha = ''0cc175b9'', fsize = 870\<rparr>)]
              None)]
          None)],
      None)"

text \<open>
  A network on which the branch \<open>main\<close> does not exist and \<open>master\<close> does, and one
  on which nothing is found.
\<close>

definition masterOnly :: network where
  "masterOnly =
     \<lparr>getBranch = (\<lambda>h u. if u = ''https://api.github.com/repos/kealmcking/Portfolio/branches/master''
                           then Ok ''4b825dc6'' else NotOk ''Not Found''),
      getTree = (\<lambda>h u. Ok (\<lparr>path = ''src'', itype = ''tree'', sha = ''9d1dcfda'', size_bytes = 0\<rparr>
                             # exampleFiles)),
      getContents = (\<lambda>h u. Ok (''base64'', ''aGVsbG8=''))\<rparr>"

definition notFound :: network where
  "notFound = \<lparr>getBranch = (\<lambda>h u. NotOk ''Not Found''), getTree = (\<lambda>h u. NotOk ''Not Found''),
               getContents = (\<lambda>h u. NotOk ''Not Found'')\<rparr>"

section \<open>Facts about the tree builder\<close>

subsection \<open>Splitting and joining\<close>

lemma split_on_not_Nil: "split_on sep s \<noteq> []"
  by (induction s) (auto split: list.splits)

lemma join_slash_Cons: "ws \<noteq> [] \<Longrightarrow> join_slash (w # ws) = w @ CHR ''/'' # join_slash ws"
  by (cases ws) auto

lemma join_slash_split_slash: "join_slash (split_slash p) = p"
proof (induction p)
  case Nil
  show ?case by simp
next
  case (Cons c cs)
  obtain w ws where ws: "split_slash cs = w # ws"
    using split_on_not_Nil [of "CHR ''/''" cs] by (cases "split_slash cs") auto
  show ?case
  proof (cases "c = CHR ''/''")
    case True
    with Cons ws show ?thesis by simp
  next
    case False
    with Cons ws show ?thesis by (cases ws) auto
  qed
qed

subsection \<open>Substrings\<close>

lemma starts_with_iff: "starts_with s pat \<longleftrightarrow> (\<exists>post. s = pat @ post)"
  by (induction s pat rule: starts_with.induct) auto


subsection \<open>Leaves after one insertion\<close>

lemma leaf_at_Cons:
  "leaf_at (props, pr) (name # rest) f =
     (case map_of props name of
        None \<Rightarrow> False
      | Some (File g) \<Rightarrow> rest = [] \<and> g = f
      | Some (Folder ch p) \<Rightarrow> rest \<noteq> [] \<and> leaf_at (ch, p) rest f)"
  by (cases rest) (auto split: option.splits node.splits)

lemma leaf_at_Nil [simp]: "leaf_at t [] f = False"
  by (cases t) simp

lemma leaf_at_empty [simp]: "leaf_at ([], pr) names f = False"
  by (cases names) (auto simp: leaf_at_Cons)

lemma getProp_OwnNode: "getProp (props, pr) k = OwnNode n \<longleftrightarrow> map_of props k = Some n"
  by (auto split: option.splits if_splits)

lemma getProp_Falsy_None: "getProp (props, pr) k = Falsy \<Longrightarrow> map_of props k = None"
  by (auto split: option.splits if_splits)

declare getProp.simps [simp del]

text \<open>
  A leaf of the tree after \<open>walk\<close> is the file just stored, at the position of its
  segments, or it was a leaf before. The position of the segments itself holds the new
  file, unless the last segment is \<open>__proto__\<close> and nothing was stored.
\<close>

lemma walk_leaf_at:
  "walk t segs f = Inr t' \<Longrightarrow> leaf_at t' names g \<Longrightarrow>
     (names = segs \<and> g = f \<and> last segs \<noteq> ''__proto__'') \<or> (leaf_at t names g \<and> (names = segs \<longrightarrow> last segs = ''__proto__''))"
proof (induction t segs f arbitrary: t' names rule: walk.induct)
  case (1 cur f)
  then show ?case by auto
next
  case (2 cur part f)
  obtain props pr where cur: "cur = (props, pr)" by (cases cur)
  obtain n ns where names: "names = n # ns" using 2 by (cases names) auto
  from 2 cur names show ?case
    by (auto simp: leaf_at_Cons update_conv' split: if_splits option.splits node.splits)
next
  case (3 cur part v va f)
  obtain props pr where cur: "cur = (props, pr)" by (cases cur)
  obtain n ns where names: "names = n # ns" using 3 by (cases names) auto
  show ?case
  proof (cases "getProp cur part")
    case (OwnNode nd)
    with 3(3) obtain ch p where nd: "nd = Folder ch p" by (cases nd) auto
    from 3(3) OwnNode nd obtain ch' p' where
      w: "walk (ch, p) (v # va) f = Inr (ch', p')" and t': "t' = setOwn cur part (Folder ch' p')"
      by (auto split: sum.splits)
    from OwnNode nd cur have m: "map_of props part = Some (Folder ch p)"
      by (simp add: getProp_OwnNode)
    show ?thesis
    proof (cases "n = part")
      case True
      with 3(4) names t' cur have "ns \<noteq> []" "leaf_at (ch', p') ns g"
        by (auto simp: leaf_at_Cons update_conv')
      from "3.IH"(1) [OF OwnNode nd w this(2)] this(1) m names True cur show ?thesis
        by (auto simp: leaf_at_Cons)
    next
      case False
      with 3(4) names t' cur show ?thesis
        by (auto simp: leaf_at_Cons update_conv')
    qed
  next
    case Falsy
    from 3(3) Falsy obtain ch' p' where
      w: "walk ([], None) (v # va) f = Inr (ch', p')" and t': "t' = setOwn cur part (Folder ch' p')"
      by (auto split: sum.splits)
    show ?thesis
    proof (cases "n = part")
      case True
      with 3(4) names t' cur have "ns \<noteq> []" "leaf_at (ch', p') ns g"
        by (auto simp: leaf_at_Cons update_conv')
      from "3.IH"(2) [OF Falsy w this(2)] this(1) names True cur show ?thesis
        by (auto simp: leaf_at_Cons)
    next
      case False
      with 3(4) names t' cur show ?thesis
        by (auto simp: leaf_at_Cons update_conv')
    qed
  next
    case InheritedTruthy
    with 3(3) show ?thesis by simp
  qed
qed

subsection \<open>Leaves after the loop over the files\<close>

lemma isExcluded_Nil [simp]: "isExcluded [] file = False"
  by (simp add: isExcluded_def)

lemma forEachFile_filter:
  "forEachFile excl files t = forEachFile [] (filter (\<lambda>file. \<not> isExcluded excl file) files) t"
  by (induction files arbitrary: t) (auto simp: addFile_def split: sum.splits)


text \<open>
  The invariant of the loop over the files: a leaf of the result was a leaf of the tree
  the loop started from, or it holds the last record of its path that was not excluded,
  at the position of the segments of that path.
\<close>

lemma forEachFile_leaf_at:
  "forEachFile excl files t = Inr t' \<Longrightarrow> leaf_at t' names g \<Longrightarrow>
     (leaf_at t names g \<and>
        (\<forall>r\<in>set files. \<not> isExcluded excl r \<and> split_slash (path r) = names \<longrightarrow> last names = ''__proto__''))
     \<or> (\<exists>pre r post. files = pre @ r # post \<and> \<not> isExcluded excl r \<and> g = mkFile r
            \<and> names = split_slash (path r) \<and> last names \<noteq> ''__proto__''
            \<and> (\<forall>r'\<in>set post. \<not> isExcluded excl r' \<longrightarrow> path r' \<noteq> path r))"
proof (induction files arbitrary: t)
  case Nil
  then show ?case by simp
next
  case (Cons fl rest)
  from Cons.prems(1) obtain t1 where
    t1: "addFile excl t fl = Inr t1" and rest: "forEachFile excl rest t1 = Inr t'"
    by (auto split: sum.splits)
  from Cons.IH [OF rest Cons.prems(2)] show ?case
  proof (elim disjE conjE exE)
    fix pre r post
    assume "rest = pre @ r # post" "\<not> isExcluded excl r" "g = mkFile r"
      "names = split_slash (path r)" "last names \<noteq> ''__proto__''"
      "\<forall>r'\<in>set post. \<not> isExcluded excl r' \<longrightarrow> path r' \<noteq> path r"
    moreover from this(1) have "fl # rest = (fl # pre) @ r # post" by simp
    ultimately show ?thesis by blast
  next
    assume old: "leaf_at t1 names g"
      and none: "\<forall>r\<in>set rest. \<not> isExcluded excl r \<and> split_slash (path r) = names \<longrightarrow> last names = ''__proto__''"
    show ?thesis
    proof (cases "isExcluded excl fl")
      case True
      with t1 have "t1 = t" by (simp add: addFile_def)
      with old none True show ?thesis by auto
    next
      case False
      with t1 have w: "walk t (split_slash (path fl)) (mkFile fl) = Inr t1"
        by (simp add: addFile_def)
      from walk_leaf_at [OF w old] show ?thesis
      proof (elim disjE conjE)
        assume new: "names = split_slash (path fl)" "g = mkFile fl"
          "last (split_slash (path fl)) \<noteq> ''__proto__''"
        have "\<forall>r'\<in>set rest. \<not> isExcluded excl r' \<longrightarrow> path r' \<noteq> path fl"
        proof (intro ballI impI notI)
          fix r' assume "r' \<in> set rest" "\<not> isExcluded excl r'" "path r' = path fl"
          with none new show False by auto
        qed
        moreover have "fl # rest = [] @ fl # rest" by simp
        ultimately show ?thesis using new False by blast
      next
        assume "leaf_at t names g" "names = split_slash (path fl) \<longrightarrow> last (split_slash (path fl)) = ''__proto__''"
        with none show ?thesis by auto
      qed
    qed
  qed
qed

lemma buildFileTree_leaf_at:
  assumes "buildFileTree excl files = Inr t" and "leaf_at t names g"
  shows "\<exists>pre r post. files = pre @ r # post \<and> \<not> isExcluded excl r \<and> g = mkFile r
            \<and> names = split_slash (path r) \<and> last names \<noteq> ''__proto__''
            \<and> (\<forall>r'\<in>set post. \<not> isExcluded excl r' \<longrightarrow> path r' \<noteq> path r)"
  using forEachFile_leaf_at [of excl files "([], None)" t names g] assms
  by (simp add: buildFileTree_def)

lemma forEachFile_append:
  "forEachFile excl (xs @ ys) t =
     (case forEachFile excl xs t of Inl e \<Rightarrow> Inl e | Inr t1 \<Rightarrow> forEachFile excl ys t1)"
  by (induction xs arbitrary: t) (auto split: sum.splits)

text \<open>A successful \<open>walk\<close> leaves the file at the position of its segments.\<close>

lemma walk_stores:
  "walk t segs f = Inr t' \<Longrightarrow> segs \<noteq> [] \<Longrightarrow> last segs \<noteq> ''__proto__'' \<Longrightarrow> leaf_at t' segs f"
proof (induction t segs f arbitrary: t' rule: walk.induct)
  case (1 cur f)
  then show ?case by simp
next
  case (2 cur part f)
  obtain props pr where cur: "cur = (props, pr)" by (cases cur)
  with 2 show ?case by (auto simp: leaf_at_Cons update_conv')
next
  case (3 cur part v va f)
  obtain props pr where cur: "cur = (props, pr)" by (cases cur)
  show ?case
  proof (cases "getProp cur part")
    case (OwnNode nd)
    with 3(3) obtain ch p where nd: "nd = Folder ch p" by (cases nd) auto
    from 3(3) OwnNode nd obtain ch' p' where
      w: "walk (ch, p) (v # va) f = Inr (ch', p')" and t': "t' = setOwn cur part (Folder ch' p')"
      by (auto split: sum.splits)
    from "3.IH"(1) [OF OwnNode nd w] 3(5) have "leaf_at (ch', p') (v # va) f" by simp
    with t' cur show ?thesis by (simp add: leaf_at_Cons update_conv')
  next
    case Falsy
    from 3(3) Falsy obtain ch' p' where
      w: "walk ([], None) (v # va) f = Inr (ch', p')" and t': "t' = setOwn cur part (Folder ch' p')"
      by (auto split: sum.splits)
    from "3.IH"(2) [OF Falsy w] 3(5) have "leaf_at (ch', p') (v # va) f" by simp
    with t' cur show ?thesis by (simp add: leaf_at_Cons update_conv')
  next
    case InheritedTruthy
    with 3(3) show ?thesis by simp
  qed
qed

text \<open>Storing a file where a file already is never throws.\<close>

lemma walk_over_leaf:
  "leaf_at t segs g \<Longrightarrow> \<exists>t'. walk t segs f = Inr t'"
proof (induction t segs f rule: walk.induct)
  case (1 cur f)
  then show ?case by simp
next
  case (2 cur part f)
  then show ?case by simp
next
  case (3 cur part v va f)
  obtain props pr where cur: "cur = (props, pr)" by (cases cur)
  from 3(3) cur obtain ch p where m: "map_of props part = Some (Folder ch p)"
    and l: "leaf_at (ch, p) (v # va) g"
    by (auto simp: leaf_at_Cons split: option.splits node.splits)
  from m cur have gp: "getProp cur part = OwnNode (Folder ch p)" by (simp add: getProp_OwnNode)
  from "3.IH"(1) [OF gp refl l] obtain t1 where "walk (ch, p) (v # va) f = Inr t1" by blast
  with gp show ?case by (cases t1) simp
qed

subsection \<open>When the builder succeeds, and what it keeps\<close>

lemma set_update_subset: "set (AList.update k v al) \<subseteq> insert (k, v) (set al)"
  by (induction al) auto

lemma plain_obj_setOwn:
  "plain_obj cur \<Longrightarrow> plain_obj (ch, p) \<Longrightarrow> plain_obj (setOwn cur part (Folder ch p))"
  using set_update_subset [of part "Folder ch p" "fst cur"]
  by (cases cur) (auto simp: plain_obj_def)

lemma plain_obj_setFile:
  "plain_obj cur \<Longrightarrow> part \<noteq> ''__proto__'' \<Longrightarrow> plain_obj (setFile cur part f)"
  using set_update_subset [of part "File f" "fst cur"]
  by (cases cur) (auto simp: plain_obj_def)

lemma plain_obj_child:
  "plain_obj (props, pr) \<Longrightarrow> map_of props k = Some (Folder ch p) \<Longrightarrow> plain_obj (ch, p)"
proof -
  assume pl: "plain_obj (props, pr)" and m: "map_of props k = Some (Folder ch p)"
  from m have "(k, Folder ch p) \<in> set props" by (rule map_of_SomeD)
  with pl have "plain_node (snd (k, Folder ch p))" unfolding plain_obj_def by fastforce
  then show ?thesis by (simp add: plain_obj_def)
qed

lemma getProp_plain:
  "plain_obj (props, pr) \<Longrightarrow> k \<notin> set objectPrototypeNames \<Longrightarrow>
     getProp (props, pr) k = (case map_of props k of None \<Rightarrow> Falsy | Some n \<Rightarrow> OwnNode n)"
  by (auto simp: plain_obj_def getProp.simps split: option.splits)

lemma walk_succeeds:
  "plain_obj t \<Longrightarrow> segs \<noteq> [] \<Longrightarrow> \<forall>s\<in>set segs. s \<notin> set objectPrototypeNames \<Longrightarrow>
   \<forall>names g. leaf_at t names g \<longrightarrow> \<not> properPrefix names segs \<Longrightarrow>
     \<exists>t'. walk t segs f = Inr t' \<and> plain_obj t'"
proof (induction t segs f rule: walk.induct)
  case (1 cur f)
  then show ?case by simp
next
  case (2 cur part f)
  then have "part \<noteq> ''__proto__''" by (auto simp: objectPrototypeNames_def)
  with 2 show ?case by (simp add: plain_obj_setFile)
next
  case (3 cur part v va f)
  obtain props pr where cur: "cur = (props, pr)" by (cases cur)
  from 3(5) have part: "part \<notin> set objectPrototypeNames"
    and rest: "\<forall>s\<in>set (v # va). s \<notin> set objectPrototypeNames" by simp_all
  note gp = getProp_plain [OF 3(3) [unfolded cur] part]
  show ?case
  proof (cases "map_of props part")
    case None
    with gp cur have falsy: "getProp cur part = Falsy" by simp
    have "plain_obj ([], None)" by (simp add: plain_obj_def)
    from "3.IH"(2) [OF falsy this _ rest] obtain t1 where
      t1: "walk ([], None) (v # va) f = Inr t1" "plain_obj t1" by auto
    obtain ch' p' where "t1 = (ch', p')" by (cases t1)
    with t1 falsy 3(3) show ?thesis by (simp add: plain_obj_setOwn)
  next
    case (Some nd)
    show ?thesis
    proof (cases nd)
      case (File g)
      with Some cur have "leaf_at cur [part] g" by simp
      moreover have "properPrefix [part] (part # v # va)" by (simp add: properPrefix_def)
      ultimately show ?thesis using 3(6) by blast
    next
      case (Folder ch p)
      with Some gp cur have own: "getProp cur part = OwnNode (Folder ch p)" by simp
      from 3(3) cur Some Folder have pl: "plain_obj (ch, p)" by (auto dest: plain_obj_child)
      have "\<forall>names g. leaf_at (ch, p) names g \<longrightarrow> \<not> properPrefix names (v # va)"
      proof (intro allI impI notI)
        fix names g assume l: "leaf_at (ch, p) names g" and pp: "properPrefix names (v # va)"
        from l have "names \<noteq> []" by auto
        with l Some Folder cur have "leaf_at cur (part # names) g" by (simp add: leaf_at_Cons)
        moreover from pp have "properPrefix (part # names) (part # v # va)"
          by (simp add: properPrefix_def)
        ultimately show False using 3(6) by blast
      qed
      from "3.IH"(1) [OF own refl pl _ rest this] obtain t1 where
        t1: "walk (ch, p) (v # va) f = Inr t1" "plain_obj t1" by auto
      obtain ch' p' where "t1 = (ch', p')" by (cases t1)
      with t1 own 3(3) show ?thesis by (simp add: plain_obj_setOwn)
    qed
  qed
qed

lemma walk_keeps:
  "walk t segs f = Inr t' \<Longrightarrow> leaf_at t names g \<Longrightarrow> take (length segs) names \<noteq> segs \<Longrightarrow>
     leaf_at t' names g"
proof (induction t segs f arbitrary: t' names rule: walk.induct)
  case (1 cur f)
  then show ?case by simp
next
  case (2 cur part f)
  obtain props pr where cur: "cur = (props, pr)" by (cases cur)
  obtain n ns where names: "names = n # ns" using 2 by (cases names) auto
  from 2 cur names show ?case
    by (auto simp: leaf_at_Cons update_conv' split: if_splits)
next
  case (3 cur part v va f)
  obtain props pr where cur: "cur = (props, pr)" by (cases cur)
  obtain n ns where names: "names = n # ns" using 3 by (cases names) auto
  show ?case
  proof (cases "getProp cur part")
    case (OwnNode nd)
    with 3(3) obtain ch p where nd: "nd = Folder ch p" by (cases nd) auto
    from 3(3) OwnNode nd obtain ch' p' where
      w: "walk (ch, p) (v # va) f = Inr (ch', p')" and t': "t' = setOwn cur part (Folder ch' p')"
      by (auto split: sum.splits)
    from OwnNode nd cur have m: "map_of props part = Some (Folder ch p)"
      by (simp add: getProp_OwnNode)
    show ?thesis
    proof (cases "n = part")
      case True
      with 3(4) names cur m have l: "leaf_at (ch, p) ns g" and "ns \<noteq> []"
        by (auto simp: leaf_at_Cons)
      from 3(5) names True have "take (length (v # va)) ns \<noteq> v # va" by simp
      from "3.IH"(1) [OF OwnNode nd w l this] \<open>ns \<noteq> []\<close> names True t' cur show ?thesis
        by (simp add: leaf_at_Cons update_conv')
    next
      case False
      with 3(4) names t' cur show ?thesis
        by (auto simp: leaf_at_Cons update_conv')
    qed
  next
    case Falsy
    from 3(3) Falsy obtain ch' p' where t': "t' = setOwn cur part (Folder ch' p')"
      by (auto split: sum.splits)
    from Falsy cur have "map_of props part = None" by (simp add: getProp_Falsy_None)
    with 3(4) names cur have "n \<noteq> part" by (auto simp: leaf_at_Cons)
    with 3(4) names t' cur show ?thesis
      by (auto simp: leaf_at_Cons update_conv')
  next
    case InheritedTruthy
    with 3(3) show ?thesis by simp
  qed
qed

lemma forEachFile_succeeds:
  "plain_obj t \<Longrightarrow>
   \<forall>a\<in>set files. \<forall>s\<in>set (split_slash (path a)). s \<notin> set objectPrototypeNames \<Longrightarrow>
   \<forall>a\<in>set files. \<forall>b\<in>set files. \<not> properPrefix (split_slash (path a)) (split_slash (path b)) \<Longrightarrow>
   \<forall>names g. leaf_at t names g \<longrightarrow> (\<forall>b\<in>set files. \<not> properPrefix names (split_slash (path b))) \<Longrightarrow>
     \<exists>t'. forEachFile [] files t = Inr t'"
proof (induction files arbitrary: t)
  case Nil
  then show ?case by simp
next
  case (Cons fl rest)
  let ?segs = "split_slash (path fl)"
  from Cons.prems have "\<forall>s\<in>set ?segs. s \<notin> set objectPrototypeNames"
    and "\<forall>names g. leaf_at t names g \<longrightarrow> \<not> properPrefix names ?segs" by simp_all
  from walk_succeeds [OF Cons.prems(1) split_on_not_Nil this] obtain t1 where
    w: "walk t ?segs (mkFile fl) = Inr t1" and pl: "plain_obj t1" by blast
  have leaves: "\<forall>names g. leaf_at t1 names g \<longrightarrow> (\<forall>b\<in>set rest. \<not> properPrefix names (split_slash (path b)))"
  proof (intro allI impI ballI)
    fix names g b assume l: "leaf_at t1 names g" and b: "b \<in> set rest"
    from walk_leaf_at [OF w l] have "names = ?segs \<or> leaf_at t names g" by blast
    then show "\<not> properPrefix names (split_slash (path b))"
    proof
      assume "names = ?segs"
      with Cons.prems(3) b show ?thesis by simp
    next
      assume "leaf_at t names g"
      with Cons.prems(4) have "\<forall>b\<in>set (fl # rest). \<not> properPrefix names (split_slash (path b))"
        by blast
      with b show ?thesis by simp
    qed
  qed
  from Cons.prems have "\<forall>a\<in>set rest. \<forall>s\<in>set (split_slash (path a)). s \<notin> set objectPrototypeNames"
    and "\<forall>a\<in>set rest. \<forall>b\<in>set rest. \<not> properPrefix (split_slash (path a)) (split_slash (path b))"
    by simp_all
  from Cons.IH [OF pl this leaves] w show ?case by (simp add: addFile_def)
qed

lemma forEachFile_keeps:
  "forEachFile excl files t = Inr t' \<Longrightarrow> leaf_at t names g \<Longrightarrow>
   \<forall>r\<in>set files. \<not> isExcluded excl r \<longrightarrow>
      take (length (split_slash (path r))) names \<noteq> split_slash (path r) \<Longrightarrow>
     leaf_at t' names g"
proof (induction files arbitrary: t)
  case Nil
  then show ?case by simp
next
  case (Cons fl rest)
  from Cons.prems(1) obtain t1 where
    t1: "addFile excl t fl = Inr t1" and rest: "forEachFile excl rest t1 = Inr t'"
    by (auto split: sum.splits)
  have "leaf_at t1 names g"
  proof (cases "isExcluded excl fl")
    case True
    with t1 Cons.prems(2) show ?thesis by (simp add: addFile_def)
  next
    case False
    with t1 have w: "walk t (split_slash (path fl)) (mkFile fl) = Inr t1"
      by (simp add: addFile_def)
    from False Cons.prems(3) have "take (length (split_slash (path fl))) names \<noteq> split_slash (path fl)"
      by simp
    from walk_keeps [OF w Cons.prems(2) this] show ?thesis .
  qed
  moreover from Cons.prems(3) have "\<forall>r\<in>set rest. \<not> isExcluded excl r \<longrightarrow>
      take (length (split_slash (path r))) names \<noteq> split_slash (path r)" by simp
  ultimately show ?case using Cons.IH [OF rest] by blast
qed

lemma split_slash_inj: "split_slash p = split_slash q \<Longrightarrow> p = q"
  by (metis join_slash_split_slash)

lemma take_neq_segments:
  "\<not> properPrefix xs ys \<Longrightarrow> xs \<noteq> ys \<Longrightarrow> take (length xs) ys \<noteq> xs"
proof
  assume np: "\<not> properPrefix xs ys" and ne: "xs \<noteq> ys" and eq: "take (length xs) ys = xs"
  show False
  proof (cases "length xs < length ys")
    case True
    with eq np show False unfolding properPrefix_def by blast
  next
    case False
    then have "take (length xs) ys = ys" by simp
    with eq ne show False by metis
  qed
qed

lemma forEachFile_present:
  assumes run: "forEachFile [] files t = Inr t'"
    and r: "r \<in> set files"
    and dist: "distinct (map path files)"
    and pf: "\<forall>a\<in>set files. \<forall>b\<in>set files. \<not> properPrefix (split_slash (path a)) (split_slash (path b))"
    and last: "last (split_slash (path r)) \<noteq> ''__proto__''"
  shows "leaf_at t' (split_slash (path r)) (mkFile r)"
proof -
  from r obtain pre post where files: "files = pre @ r # post" by (auto dest: split_list)
  from run files
  have "(case forEachFile [] pre t of Inl e \<Rightarrow> Inl e | Inr t0 \<Rightarrow> forEachFile [] (r # post) t0) = Inr t'"
    by (simp only: forEachFile_append)
  then obtain t0 where "forEachFile [] (r # post) t0 = Inr t'"
    by (cases "forEachFile [] pre t") auto
  then obtain t1 where w: "walk t0 (split_slash (path r)) (mkFile r) = Inr t1"
    and post: "forEachFile [] post t1 = Inr t'"
    by (auto simp: addFile_def split: sum.splits)
  from walk_stores [OF w split_on_not_Nil last]
  have l: "leaf_at t1 (split_slash (path r)) (mkFile r)" .
  have "\<forall>r'\<in>set post. \<not> isExcluded [] r' \<longrightarrow>
      take (length (split_slash (path r'))) (split_slash (path r)) \<noteq> split_slash (path r')"
  proof (intro ballI impI)
    fix r' assume r': "r' \<in> set post"
    from r' files have mem: "r' \<in> set files" "r \<in> set files" by simp_all
    from dist files have "path r \<notin> path ` set post" by simp
    with r' have "path r' \<noteq> path r" by (metis imageI)
    then have "split_slash (path r') \<noteq> split_slash (path r)" using split_slash_inj by blast
    moreover from pf mem
    have "\<not> properPrefix (split_slash (path r')) (split_slash (path r))" by blast
    ultimately show "take (length (split_slash (path r'))) (split_slash (path r)) \<noteq> split_slash (path r')"
      by (rule take_neq_segments [rotated])
  qed
  from forEachFile_keeps [OF post l this] show ?thesis .
qed

subsection \<open>The example listing\<close>

lemma buildFileTree_example: "buildFileTree defaultExcludedPaths exampleFiles = Inr exampleTree"
  by (simp add: buildFileTree_def addFile_def isExcluded_def blob_def mkFile_def exampleFiles_def
      exampleTree_def defaultExcludedPaths_def objectPrototypeNames_def getProp.simps)

text \<open>
  On the listing of a file system the builder returns a tree, and the leaves of that
  tree are exactly the records that were not excluded, each at the position of the
  segments of its path.
\<close>

lemma buildFileTree_fileSystemListing:
  assumes "fileSystemListing (filter (\<lambda>file. \<not> isExcluded excl file) files)"
  shows "\<exists>tree. buildFileTree excl files = Inr tree
           \<and> (\<forall>names f. leaf_at tree names f \<longleftrightarrow>
                 (\<exists>file\<in>set files. \<not> isExcluded excl file \<and> f = mkFile file
                     \<and> names = split_slash (path file)))"
proof -
  let ?kept = "filter (\<lambda>file. \<not> isExcluded excl file) files"
  from assms have dist: "distinct (map path ?kept)"
    and names: "\<forall>a\<in>set ?kept. \<forall>s\<in>set (split_slash (path a)). s \<notin> set objectPrototypeNames"
    and pf: "\<forall>a\<in>set ?kept. \<forall>b\<in>set ?kept.
          \<not> properPrefix (split_slash (path a)) (split_slash (path b))"
    by (simp_all only: fileSystemListing_def) blast+
  have "plain_obj ([], None)" by (simp add: plain_obj_def)
  from forEachFile_succeeds [OF this names pf] obtain tree where
    run: "forEachFile [] ?kept ([], None) = Inr tree" by auto
  then have built: "buildFileTree excl files = Inr tree"
    unfolding buildFileTree_def by (subst forEachFile_filter)
  have "leaf_at tree names f \<longleftrightarrow>
          (\<exists>file\<in>set files. \<not> isExcluded excl file \<and> f = mkFile file \<and> names = split_slash (path file))"
    for names f
  proof
    assume "leaf_at tree names f"
    from buildFileTree_leaf_at [OF built this]
    show "\<exists>file\<in>set files. \<not> isExcluded excl file \<and> f = mkFile file \<and> names = split_slash (path file)"
      by auto
  next
    assume "\<exists>file\<in>set files. \<not> isExcluded excl file \<and> f = mkFile file \<and> names = split_slash (path file)"
    then obtain r where r: "r \<in> set ?kept" and f: "f = mkFile r" and n: "names = split_slash (path r)"
      by auto
    from names r have "last (split_slash (path r)) \<notin> set objectPrototypeNames"
      using split_on_not_Nil [of "CHR ''/''" "path r"] last_in_set by blast
    then have "last (split_slash (path r)) \<noteq> ''__proto__''"
      by (auto simp: objectPrototypeNames_def)
    from forEachFile_present [OF run r dist pf this] f n show "leaf_at tree names f" by simp
  qed
  with built show ?thesis by blast
qed

lemma exampleFiles_kept:
  "filter (\<lambda>file. \<not> isExcluded defaultExcludedPaths file) exampleFiles =
     [blob ''README.md'' ''8b1a9953'' 1200, blob ''src/main.cpp'' ''c3ab8ff1'' 5300,
      blob ''src/ui/Widget.h'' ''0cc175b9'' 870]"
  by (simp add: exampleFiles_def blob_def isExcluded_def defaultExcludedPaths_def)

lemma fileSystemListing_example:
  "fileSystemListing (filter (\<lambda>file. \<not> isExcluded defaultExcludedPaths file) exampleFiles)"
  unfolding exampleFiles_kept
  by (simp add: fileSystemListing_def blob_def objectPrototypeNames_def properPrefix_def)

section \<open>Facts about sorting\<close>

lemma mset_insert_sorted: "mset (insert_sorted compare x ys) = add_mset x (mset ys)"
  by (induction ys) auto

lemma mset_array_sort: "mset (array_sort compare xs) = mset xs"
  unfolding array_sort_def by (induction xs) (auto simp: mset_insert_sorted)

lemma set_insert_sorted: "set (insert_sorted compare x ys) = insert x (set ys)"
  by (induction ys) auto

lemma sorted_insert_sorted:
  assumes "consistent compare"
  shows "sorted_wrt (\<lambda>a b. compare a b \<le> 0) ys \<Longrightarrow>
         sorted_wrt (\<lambda>a b. compare a b \<le> 0) (insert_sorted compare x ys)"
proof (induction ys)
  case Nil
  then show ?case by simp
next
  case (Cons y ys)
  from assms have total: "\<And>a b. 0 < compare a b \<Longrightarrow> compare b a < 0"
    and trans: "\<And>a b c. compare a b \<le> 0 \<Longrightarrow> compare b c \<le> 0 \<Longrightarrow> compare a c \<le> 0"
    unfolding consistent_def by blast+
  show ?case
  proof (cases "compare x y \<le> 0")
    case True
    with Cons.prems trans have "\<forall>z\<in>set ys. compare x z \<le> 0" by auto
    with True Cons.prems show ?thesis by simp
  next
    case False
    then have "compare y x \<le> 0" using total [of x y] by simp
    with False Cons show ?thesis by (auto simp: set_insert_sorted)
  qed
qed

lemma sorted_array_sort:
  "consistent compare \<Longrightarrow> sorted_wrt (\<lambda>a b. compare a b \<le> 0) (array_sort compare xs)"
  unfolding array_sort_def by (induction xs) (auto intro: sorted_insert_sorted)

lemma consistent_compareEntries:
  assumes "consistent localeCompare"
  shows "consistent (compareEntries localeCompare tree)"
proof -
  from assms have total: "\<And>a b. 0 < localeCompare a b \<Longrightarrow> localeCompare b a < 0"
    and trans: "\<And>a b c. localeCompare a b \<le> 0 \<Longrightarrow> localeCompare b c \<le> 0 \<Longrightarrow> localeCompare a c \<le> 0"
    unfolding consistent_def by blast+
  show ?thesis
    unfolding consistent_def compareEntries_def Let_def
  proof (intro conjI allI impI)
    fix a b
    assume "0 < (if isFolderAt tree a \<and> \<not> isFolderAt tree b then - 1
                else if \<not> isFolderAt tree a \<and> isFolderAt tree b then 1 else localeCompare a b)"
    then show "(if isFolderAt tree b \<and> \<not> isFolderAt tree a then - 1
                else if \<not> isFolderAt tree b \<and> isFolderAt tree a then 1 else localeCompare b a) < 0"
      using total [of a b] by (auto split: if_splits)
  next
    fix a b c
    assume "(if isFolderAt tree a \<and> \<not> isFolderAt tree b then - 1
             else if \<not> isFolderAt tree a \<and> isFolderAt tree b then 1 else localeCompare a b) \<le> 0
          \<and> (if isFolderAt tree b \<and> \<not> isFolderAt tree c then - 1
             else if \<not> isFolderAt tree b \<and> isFolderAt tree c then 1 else localeCompare b c) \<le> 0"
    then show "(if isFolderAt tree a \<and> \<not> isFolderAt tree c then - 1
             else if \<not> isFolderAt tree a \<and> isFolderAt tree c then 1 else localeCompare a c) \<le> 0"
      using trans [of a b c] by (auto split: if_splits)
  qed
qed

lemma compareEntries_le_0:
  "compareEntries localeCompare tree a b \<le> 0 \<Longrightarrow>
     (isFolderAt tree a \<or> \<not> isFolderAt tree b) \<and>
     (isFolderAt tree a = isFolderAt tree b \<longrightarrow> localeCompare a b \<le> 0)"
  by (auto simp: compareEntries_def Let_def split: if_splits)

lemma entries_sorted:
  assumes "consistent localeCompare"
  shows "sorted_wrt (\<lambda>a b. (isFolderAt tree a \<or> \<not> isFolderAt tree b) \<and>
                         (isFolderAt tree a = isFolderAt tree b \<longrightarrow> localeCompare a b \<le> 0))
           (entries localeCompare tree)"
  unfolding entries_def
  by (rule sorted_wrt_mono_rel [OF _ sorted_array_sort [OF consistent_compareEntries [OF assms]]])
     (auto dest: compareEntries_le_0)

lemma entries_mset: "mset (entries localeCompare tree) = mset (objectKeys tree)"
  by (simp add: entries_def mset_array_sort)


declare createTreeElement.simps [simp del]

lemma codeUnitCompare_Cons_le:
  "codeUnitCompare (x # xs) (y # ys) \<le> 0 \<longleftrightarrow>
     (of_char x :: nat) < of_char y \<or> ((of_char x :: nat) = of_char y \<and> codeUnitCompare xs ys \<le> 0)"
  by (cases "(of_char x :: nat) < of_char y"; cases "(of_char y :: nat) < of_char x") auto

lemma codeUnitCompare_total: "0 < codeUnitCompare a b \<Longrightarrow> codeUnitCompare b a < 0"
  by (induction a b rule: codeUnitCompare.induct) (auto split: if_splits)

lemma codeUnitCompare_trans:
  "codeUnitCompare a b \<le> 0 \<Longrightarrow> codeUnitCompare b c \<le> 0 \<Longrightarrow> codeUnitCompare a c \<le> 0"
proof (induction a b arbitrary: c rule: codeUnitCompare.induct)
  case 1
  then show ?case by simp
next
  case (2 y ys)
  then show ?case by (cases c) simp_all
next
  case (3 x xs)
  then show ?case by simp
next
  case (4 x xs y ys)
  show ?case
  proof (cases c)
    case Nil
    with 4(3) show ?thesis by simp
  next
    case (Cons z zs)
    from 4(2) have xy: "(of_char x :: nat) < of_char y
        \<or> ((of_char x :: nat) = of_char y \<and> codeUnitCompare xs ys \<le> 0)"
      by (simp only: codeUnitCompare_Cons_le)
    from 4(3) Cons have yz: "(of_char y :: nat) < of_char z
        \<or> ((of_char y :: nat) = of_char z \<and> codeUnitCompare ys zs \<le> 0)"
      by (simp only: codeUnitCompare_Cons_le)
    have "(of_char x :: nat) < of_char z
        \<or> ((of_char x :: nat) = of_char z \<and> codeUnitCompare xs zs \<le> 0)"
    proof (cases "(of_char x :: nat) = of_char y \<and> (of_char y :: nat) = of_char z")
      case True
      with xy yz have "codeUnitCompare xs ys \<le> 0" "codeUnitCompare ys zs \<le> 0" by simp_all
      with True "4.IH" [of zs] show ?thesis by simp
    next
      case False
      with xy yz have "(of_char x :: nat) < of_char z" by linarith
      then show ?thesis by simp
    qed
    with Cons show ?thesis by (simp only: codeUnitCompare_Cons_le)
  qed
qed

lemma consistent_codeUnitCompare: "consistent codeUnitCompare"
  unfolding consistent_def using codeUnitCompare_total codeUnitCompare_trans by blast

section \<open>Facts about loading\<close>

declare fetchRepositoryTree.simps [simp del]

lemma fetchRepositoryTree_Rejected:
  "getBranch net (requests b) (branchUrl b) = Rejected \<Longrightarrow>
     fetchRepositoryTree net b = (Inl FetchRejected, b\<lparr>requests := requests b @ [branchUrl b]\<rparr>)"
  by (subst fetchRepositoryTree.simps) (simp add: Let_def)

lemma fetchRepositoryTree_NotOk_other:
  "getBranch net (requests b) (branchUrl b) = NotOk st \<Longrightarrow> branch b \<noteq> ''main'' \<Longrightarrow>
     fetchRepositoryTree net b =
       (Inl (HttpError (''Failed to fetch branch: '' @ st)), b\<lparr>requests := requests b @ [branchUrl b]\<rparr>)"
  by (subst fetchRepositoryTree.simps) (simp add: Let_def)

lemma fetchRepositoryTree_NotOk_main:
  "getBranch net (requests b) (branchUrl b) = NotOk st \<Longrightarrow> branch b = ''main'' \<Longrightarrow>
     fetchRepositoryTree net b =
       fetchRepositoryTree net (b\<lparr>requests := requests b @ [branchUrl b], branch := ''master''\<rparr>)"
  by (subst fetchRepositoryTree.simps) (simp add: Let_def)

lemma fetchRepositoryTree_Ok:
  "getBranch net (requests b) (branchUrl b) = Ok treeSha \<Longrightarrow>
     fetchRepositoryTree net b =
       (case getTree net (requests b @ [branchUrl b]) (treeUrl b treeSha) of
          Rejected \<Rightarrow> (Inl FetchRejected, b\<lparr>requests := requests b @ [branchUrl b, treeUrl b treeSha]\<rparr>)
        | NotOk statusText \<Rightarrow>
            (Inl (HttpError (''Failed to fetch tree: '' @ statusText)),
             b\<lparr>requests := requests b @ [branchUrl b, treeUrl b treeSha]\<rparr>)
        | Ok tree \<Rightarrow>
            (Inr (filter (\<lambda>item. itype item = ''blob'') tree),
             b\<lparr>requests := requests b @ [branchUrl b, treeUrl b treeSha]\<rparr>))"
  by (subst fetchRepositoryTree.simps) (simp add: Let_def treeUrl_def split: response.splits)

lemma loadRepository_requests_branch:
  "requests (loadRepository lc net b) = requests (snd (fetchRepositoryTree net b))
   \<and> branch (loadRepository lc net b) = branch (snd (fetchRepositoryTree net b))"
  by (simp add: loadRepository_def showError_def renderFileTree_def split: prod.splits sum.splits)

lemma loadRepository_Inl:
  "fetchRepositoryTree net b = (Inl e, b') \<Longrightarrow> loadRepository lc net b = loadFailed b'"
  by (simp add: loadRepository_def showError_def loadFailed_def)

lemma starts_with_append_same: "starts_with (p @ s) (p @ t) = starts_with s t"
  by (induction p) auto

lemma isBranchRequest_branchUrl:
  "owner b' = owner b \<Longrightarrow> repo b' = repo b \<Longrightarrow> isBranchRequest b (branchUrl b')"
  unfolding isBranchRequest_def branchUrl_def
  by (simp add: starts_with_iff)

lemma isBranchRequest_treeUrl:
  "owner b' = owner b \<Longrightarrow> repo b' = repo b \<Longrightarrow> \<not> isBranchRequest b (treeUrl b' treeSha)"
proof -
  assume eq: "owner b' = owner b" "repo b' = repo b"
  have "starts_with ((''https://api.github.com/repos/'' @ owner b @ ''/'' @ repo b) @ ''/git/trees/'' @ treeSha @ ''?recursive=1'')
          ((''https://api.github.com/repos/'' @ owner b @ ''/'' @ repo b) @ ''/branches/'')
        = starts_with (''/git/trees/'' @ treeSha @ ''?recursive=1'') ''/branches/''"
    by (rule starts_with_append_same)
  then show ?thesis unfolding isBranchRequest_def treeUrl_def eq by simp
qed

lemma attempt_shape:
  assumes "branch b \<noteq> ''main'' \<or> (\<forall>st. getBranch net (requests b) (branchUrl b) \<noteq> NotOk st)"
  shows "\<exists>res b'. fetchRepositoryTree net b = (res, b') \<and> branch b' = branch b
           \<and> owner b' = owner b \<and> repo b' = repo b
           \<and> ((requests b' = requests b @ [branchUrl b] \<and> (\<exists>e. res = Inl e)
                  \<and> (\<forall>treeSha. getBranch net (requests b) (branchUrl b) \<noteq> Ok treeSha))
               \<or> (\<exists>treeSha. getBranch net (requests b) (branchUrl b) = Ok treeSha
                     \<and> requests b' = requests b @ [branchUrl b, treeUrl b treeSha]))"
proof (cases "getBranch net (requests b) (branchUrl b)")
  case Rejected
  then show ?thesis by (simp add: fetchRepositoryTree_Rejected)
next
  case (NotOk st)
  with assms have "branch b \<noteq> ''main''" by auto
  with NotOk show ?thesis by (simp add: fetchRepositoryTree_NotOk_other)
next
  case (Ok treeSha)
  then show ?thesis by (simp add: fetchRepositoryTree_Ok split: response.splits)
qed

lemma retry_shape:
  assumes "getBranch net (requests b) (branchUrl b) = NotOk st" and "branch b = ''main''"
  shows "\<exists>res b'. fetchRepositoryTree net b = (res, b') \<and> branch b' = ''master''
           \<and> owner b' = owner b \<and> repo b' = repo b
           \<and> ((requests b' = requests b @ [branchUrl b, branchUrl (retryWithMaster b)] \<and> (\<exists>e. res = Inl e)
                  \<and> (\<forall>treeSha. getBranch net (requests (retryWithMaster b)) (branchUrl (retryWithMaster b)) \<noteq> Ok treeSha))
               \<or> (\<exists>treeSha. getBranch net (requests (retryWithMaster b)) (branchUrl (retryWithMaster b)) = Ok treeSha
                     \<and> requests b' = requests b @ [branchUrl b, branchUrl (retryWithMaster b),
                                                    treeUrl (retryWithMaster b) treeSha]))"
proof -
  have eq: "fetchRepositoryTree net b = fetchRepositoryTree net (retryWithMaster b)"
    unfolding retryWithMaster_def by (rule fetchRepositoryTree_NotOk_main [OF assms])
  have "branch (retryWithMaster b) \<noteq> ''main''" by (simp add: retryWithMaster_def)
  then have "branch (retryWithMaster b) \<noteq> ''main''
      \<or> (\<forall>st. getBranch net (requests (retryWithMaster b)) (branchUrl (retryWithMaster b)) \<noteq> NotOk st)"
    by simp
  from attempt_shape [OF this] obtain res b' where
    f: "fetchRepositoryTree net (retryWithMaster b) = (res, b')"
    and br: "branch b' = branch (retryWithMaster b)"
    and ow: "owner b' = owner (retryWithMaster b)" "repo b' = repo (retryWithMaster b)"
    and sh: "(requests b' = requests (retryWithMaster b) @ [branchUrl (retryWithMaster b)] \<and> (\<exists>e. res = Inl e)
                  \<and> (\<forall>treeSha. getBranch net (requests (retryWithMaster b)) (branchUrl (retryWithMaster b)) \<noteq> Ok treeSha))
               \<or> (\<exists>treeSha. getBranch net (requests (retryWithMaster b)) (branchUrl (retryWithMaster b)) = Ok treeSha
                     \<and> requests b' = requests (retryWithMaster b) @ [branchUrl (retryWithMaster b),
                                           treeUrl (retryWithMaster b) treeSha])"
    by blast
  have rq: "requests (retryWithMaster b) = requests b @ [branchUrl b]"
    and rb: "branch (retryWithMaster b) = ''master''"
    and ro: "owner (retryWithMaster b) = owner b" "repo (retryWithMaster b) = repo b"
    by (simp_all add: retryWithMaster_def)
  from sh have "(requests b' = requests b @ [branchUrl b, branchUrl (retryWithMaster b)] \<and> (\<exists>e. res = Inl e)
                  \<and> (\<forall>treeSha. getBranch net (requests (retryWithMaster b)) (branchUrl (retryWithMaster b)) \<noteq> Ok treeSha))
               \<or> (\<exists>treeSha. getBranch net (requests (retryWithMaster b)) (branchUrl (retryWithMaster b)) = Ok treeSha
                     \<and> requests b' = requests b @ [branchUrl b, branchUrl (retryWithMaster b),
                                                    treeUrl (retryWithMaster b) treeSha])"
    unfolding rq by simp
  with eq f br ow rb ro show ?thesis by simp
qed

lemma fetchRepositoryTree_frame:
  "snd (fetchRepositoryTree net b) =
     b\<lparr>requests := requests (snd (fetchRepositoryTree net b)),
       branch := branch (snd (fetchRepositoryTree net b))\<rparr>"
proof (induction net b rule: fetchRepositoryTree.induct)
  case (1 net b)
  show ?case
  proof (cases "getBranch net (requests b) (branchUrl b)")
    case Rejected
    then show ?thesis by (simp add: fetchRepositoryTree_Rejected)
  next
    case (NotOk st)
    show ?thesis
    proof (cases "branch b = ''main''")
      case True
      from "1.IH" [OF refl NotOk] True
      have "snd (fetchRepositoryTree net (b\<lparr>requests := requests b @ [branchUrl b], branch := ''master''\<rparr>)) =
         b\<lparr>requests := requests b @ [branchUrl b], branch := ''master'',
           requests := requests (snd (fetchRepositoryTree net (b\<lparr>requests := requests b @ [branchUrl b], branch := ''master''\<rparr>))),
           branch := branch (snd (fetchRepositoryTree net (b\<lparr>requests := requests b @ [branchUrl b], branch := ''master''\<rparr>)))\<rparr>"
        by simp
      then show ?thesis
        unfolding fetchRepositoryTree_NotOk_main [OF NotOk True] by simp
    next
      case False
      with NotOk show ?thesis by (simp add: fetchRepositoryTree_NotOk_other)
    qed
  next
    case (Ok treeSha)
    then show ?thesis by (simp add: fetchRepositoryTree_Ok split: response.splits)
  qed
qed

lemma loadRepository_failed_fields:
  "fetchRepositoryTree net b = (Inl e, b') \<Longrightarrow>
     treePanel (loadRepository lc net b) = TreeError ''Failed to load repository. Make sure the repository is public.''
     \<and> fileTree (loadRepository lc net b) = fileTree b"
proof -
  assume f: "fetchRepositoryTree net b = (Inl e, b')"
  from fetchRepositoryTree_frame [of net b] f
  have "b' = b\<lparr>requests := requests b', branch := branch b'\<rparr>" by simp
  from arg_cong [OF this, of fileTree] have "fileTree b' = fileTree b" by simp
  with f show ?thesis by (simp add: loadRepository_Inl loadFailed_def)
qed

lemma newRequests_append: "requests after = requests before @ xs \<Longrightarrow> newRequests before after = xs"
  by (simp add: newRequests_def)

subsection \<open>What selecting files changes\<close>

lemma selectFile_fields:
  "owner (selectFile net p sz s) = owner s \<and> repo (selectFile net p sz s) = repo s
   \<and> branch (selectFile net p sz s) = branch s \<and> maxFileSize (selectFile net p sz s) = maxFileSize s
   \<and> fileTree (selectFile net p sz s) = fileTree s
   \<and> requests (selectFile net p sz s)
       = requests s @ (if maxFileSize s < sz then [] else [contentsUrl s p])"
  by (simp add: selectFile_def fetchFileContent_def showFileViewer_def displayFile_def Let_def
      contentsUrl_def split: response.splits sum.splits prod.splits)

lemma contentsUrl_cong:
  "owner s' = owner s \<Longrightarrow> repo s' = repo s \<Longrightarrow> branch s' = branch s \<Longrightarrow>
     contentsUrl s' p = contentsUrl s p"
  by (simp add: contentsUrl_def)

lemma selectFiles_fields:
  "owner (selectFiles net clicks s) = owner s \<and> repo (selectFiles net clicks s) = repo s
   \<and> branch (selectFiles net clicks s) = branch s
   \<and> maxFileSize (selectFiles net clicks s) = maxFileSize s
   \<and> requests (selectFiles net clicks s)
       = requests s @ map (\<lambda>c. contentsUrl s (fst c)) (filter (\<lambda>c. snd c \<le> maxFileSize s) clicks)"
proof (induction clicks arbitrary: s)
  case Nil
  show ?case by simp
next
  case (Cons c clicks)
  obtain p sz where c: "c = (p, sz)" by (cases c)
  let ?s = "selectFile net p sz s"
  note f = selectFile_fields [of net p sz s]
  from f have u: "contentsUrl ?s = contentsUrl s" by (auto intro: contentsUrl_cong)
  from Cons [of ?s] f c show ?case unfolding u by auto
qed

lemma loadRepository_fields:
  "owner (loadRepository lc net b) = owner b \<and> repo (loadRepository lc net b) = repo b
   \<and> maxFileSize (loadRepository lc net b) = maxFileSize b"
proof -
  obtain res b' where f: "fetchRepositoryTree net b = (res, b')" by (cases "fetchRepositoryTree net b")
  from fetchRepositoryTree_frame [of net b] f
  have eq: "b' = b\<lparr>requests := requests b', branch := branch b'\<rparr>" by simp
  from arg_cong [OF eq, of owner] arg_cong [OF eq, of repo] arg_cong [OF eq, of maxFileSize]
  have "owner b' = owner b" "repo b' = repo b" "maxFileSize b' = maxFileSize b" by simp_all
  with f show ?thesis
    by (simp add: loadRepository_def showError_def renderFileTree_def split: sum.splits)
qed

section \<open>Properties\<close>

subsection \<open>The paths of the leaves\<close>

text \<open>
  C1 (for every input list without duplicate paths the builder produces a tree whose
  leaves reconstruct the paths of their records). As stated this fails: no path is
  duplicated in the list \<open>docs\<close>, \<open>docs/a.md\<close>, yet \<open>docs\<close> is stored as a file, its
  \<open>children\<close> is \<open>undefined\<close>, and storing \<open>a.md\<close> below it throws.
\<close>

theorem buildFileTree_record_below_file_throws:
  "distinct (map path [blob ''docs'' ''8b1a9953'' 10, blob ''docs/a.md'' ''c3ab8ff1'' 20])
   \<and> buildFileTree [] [blob ''docs'' ''8b1a9953'' 10, blob ''docs/a.md'' ''c3ab8ff1'' 20]
       = Inl TypeError"
  by (simp add: buildFileTree_def addFile_def blob_def mkFile_def objectPrototypeNames_def
      getProp.simps)

text \<open>
  C1, amended. In every tree that \<open>buildFileTree\<close> returns, every leaf holds a record
  of the input that was not excluded, and the names on the way from the root to the
  leaf, joined with slashes, are the path of that record. On the listing of a file
  system (after exclusion: no two records with the same path, no record below another
  record, no segment named like an inherited property) the builder does return a tree,
  and its leaves are exactly the records that were not excluded, each at the position
  of the segments of its path.
\<close>

theorem buildFileTree_leaf_paths:
  "(buildFileTree excl files = Inr tree \<and> leaf_at tree names f \<longrightarrow>
      (\<exists>file\<in>set files. \<not> isExcluded excl file \<and> f = mkFile file \<and> join_slash names = path file))
   \<and> (fileSystemListing (filter (\<lambda>file. \<not> isExcluded excl file) files) \<longrightarrow>
      (\<exists>built. buildFileTree excl files = Inr built
         \<and> (\<forall>names f. leaf_at built names f \<longleftrightarrow>
               (\<exists>file\<in>set files. \<not> isExcluded excl file \<and> f = mkFile file
                   \<and> names = split_slash (path file)))))"
proof (intro conjI impI)
  assume "buildFileTree excl files = Inr tree \<and> leaf_at tree names f"
  then have "buildFileTree excl files = Inr tree" "leaf_at tree names f" by simp_all
  from buildFileTree_leaf_at [OF this] obtain pre r post where
    "files = pre @ r # post" "\<not> isExcluded excl r" "f = mkFile r" "names = split_slash (path r)"
    by blast
  then have "r \<in> set files" "join_slash names = path r"
    by (simp_all add: join_slash_split_slash)
  with \<open>\<not> isExcluded excl r\<close> \<open>f = mkFile r\<close>
  show "\<exists>file\<in>set files. \<not> isExcluded excl file \<and> f = mkFile file \<and> join_slash names = path file"
    by blast
next
  assume "fileSystemListing (filter (\<lambda>file. \<not> isExcluded excl file) files)"
  then show "\<exists>built. buildFileTree excl files = Inr built
         \<and> (\<forall>names f. leaf_at built names f \<longleftrightarrow>
               (\<exists>file\<in>set files. \<not> isExcluded excl file \<and> f = mkFile file
                   \<and> names = split_slash (path file)))"
    by (rule buildFileTree_fileSystemListing)
qed

theorem buildFileTree_leaf_paths_witness:
  "buildFileTree defaultExcludedPaths exampleFiles = Inr exampleTree
   \<and> leaf_at exampleTree [''src'', ''ui'', ''Widget.h'']
        \<lparr>fpath = ''src/ui/Widget.h'', fsha = ''0cc175b9'', fsize = 870\<rparr>
   \<and> (\<exists>file\<in>set exampleFiles.
         \<not> isExcluded defaultExcludedPaths file
         \<and> \<lparr>fpath = ''src/ui/Widget.h'', fsha = ''0cc175b9'', fsize = 870\<rparr> = mkFile file
         \<and> join_slash [''src'', ''ui'', ''Widget.h''] = path file)
   \<and> fileSystemListing (filter (\<lambda>file. \<not> isExcluded defaultExcludedPaths file) exampleFiles)
   \<and> (\<exists>built. buildFileTree defaultExcludedPaths exampleFiles = Inr built
         \<and> (\<forall>names f. leaf_at built names f \<longleftrightarrow>
               (\<exists>file\<in>set exampleFiles. \<not> isExcluded defaultExcludedPaths file \<and> f = mkFile file
                   \<and> names = split_slash (path file))))"
proof -
  let ?f = "\<lparr>fpath = ''src/ui/Widget.h'', fsha = ''0cc175b9'', fsize = 870\<rparr>"
  have built: "buildFileTree defaultExcludedPaths exampleFiles = Inr exampleTree"
    by (rule buildFileTree_example)
  have leaf: "leaf_at exampleTree [''src'', ''ui'', ''Widget.h''] ?f"
    by (simp add: exampleTree_def)
  note inst = buildFileTree_leaf_paths [of defaultExcludedPaths exampleFiles exampleTree
      "[''src'', ''ui'', ''Widget.h'']" ?f]
  from inst [THEN conjunct1] built leaf
  have one: "\<exists>file\<in>set exampleFiles.
         \<not> isExcluded defaultExcludedPaths file \<and> ?f = mkFile file
         \<and> join_slash [''src'', ''ui'', ''Widget.h''] = path file" by blast
  from inst [THEN conjunct2] fileSystemListing_example
  have all: "\<exists>built. buildFileTree defaultExcludedPaths exampleFiles = Inr built
         \<and> (\<forall>names f. leaf_at built names f \<longleftrightarrow>
               (\<exists>file\<in>set exampleFiles. \<not> isExcluded defaultExcludedPaths file \<and> f = mkFile file
                   \<and> names = split_slash (path file)))" by (rule mp)
  from built leaf one fileSystemListing_example all show ?thesis by (intro conjI)
qed

subsection \<open>Exclusion\<close>



subsection \<open>Duplicate paths\<close>

text \<open>
  C9. A leaf of the built tree holds the last record of its path that was not excluded:
  no later record of the list has the same path. When a slot holds the file of an
  earlier record, processing one more record with the same path raises no error and
  leaves the later record in that slot.
\<close>

theorem later_record_overwrites:
  "(buildFileTree excl files = Inr tree \<and> leaf_at tree names f \<longrightarrow>
      (\<exists>pre file post. files = pre @ file # post \<and> \<not> isExcluded excl file \<and> f = mkFile file
          \<and> names = split_slash (path file)
          \<and> (\<forall>later\<in>set post. \<not> isExcluded excl later \<longrightarrow> path later \<noteq> path file)))
   \<and> (buildFileTree excl files = Inr tree \<and> leaf_at tree (split_slash (path later)) g
        \<and> \<not> isExcluded excl later \<longrightarrow>
      (\<exists>tree'. buildFileTree excl (files @ [later]) = Inr tree'
          \<and> leaf_at tree' (split_slash (path later)) (mkFile later)))"
proof (intro conjI impI)
  assume "buildFileTree excl files = Inr tree \<and> leaf_at tree names f"
  then have "buildFileTree excl files = Inr tree" "leaf_at tree names f" by simp_all
  from buildFileTree_leaf_at [OF this]
  show "\<exists>pre file post. files = pre @ file # post \<and> \<not> isExcluded excl file \<and> f = mkFile file
          \<and> names = split_slash (path file)
          \<and> (\<forall>later\<in>set post. \<not> isExcluded excl later \<longrightarrow> path later \<noteq> path file)"
    by blast
next
  let ?segs = "split_slash (path later)"
  assume "buildFileTree excl files = Inr tree \<and> leaf_at tree ?segs g \<and> \<not> isExcluded excl later"
  then have built: "buildFileTree excl files = Inr tree" and leaf: "leaf_at tree ?segs g"
    and kept: "\<not> isExcluded excl later" by simp_all
  from buildFileTree_leaf_at [OF built leaf] have last: "last ?segs \<noteq> ''__proto__''" by blast
  from walk_over_leaf [OF leaf] obtain tree' where w: "walk tree ?segs (mkFile later) = Inr tree'"
    by blast
  from walk_stores [OF w split_on_not_Nil last] have "leaf_at tree' ?segs (mkFile later)" .
  moreover from built w kept have "buildFileTree excl (files @ [later]) = Inr tree'"
    by (simp add: buildFileTree_def forEachFile_append addFile_def)
  ultimately show "\<exists>tree'. buildFileTree excl (files @ [later]) = Inr tree'
          \<and> leaf_at tree' ?segs (mkFile later)" by blast
qed

theorem later_record_overwrites_witness:
  "buildFileTree [] [blob ''src/a.js'' ''c3ab8ff1'' 5300]
     = Inr ([(''src'', Folder [(''a.js'', File (mkFile (blob ''src/a.js'' ''c3ab8ff1'' 5300)))] None)], None)
   \<and> leaf_at ([(''src'', Folder [(''a.js'', File (mkFile (blob ''src/a.js'' ''c3ab8ff1'' 5300)))] None)], None)
        (split_slash (path (blob ''src/a.js'' ''0cc175b9'' 870)))
        (mkFile (blob ''src/a.js'' ''c3ab8ff1'' 5300))
   \<and> \<not> isExcluded [] (blob ''src/a.js'' ''0cc175b9'' 870)
   \<and> (\<exists>tree'. buildFileTree [] ([blob ''src/a.js'' ''c3ab8ff1'' 5300] @ [blob ''src/a.js'' ''0cc175b9'' 870])
                  = Inr tree'
          \<and> leaf_at tree' (split_slash (path (blob ''src/a.js'' ''0cc175b9'' 870)))
               (mkFile (blob ''src/a.js'' ''0cc175b9'' 870)))
   \<and> buildFileTree [] [blob ''src/a.js'' ''c3ab8ff1'' 5300, blob ''src/a.js'' ''0cc175b9'' 870]
     = Inr ([(''src'', Folder [(''a.js'', File \<lparr>fpath = ''src/a.js'', fsha = ''0cc175b9'', fsize = 870\<rparr>)] None)], None)
   \<and> leaf_at ([(''src'', Folder [(''a.js'', File \<lparr>fpath = ''src/a.js'', fsha = ''0cc175b9'', fsize = 870\<rparr>)] None)], None)
        [''src'', ''a.js''] \<lparr>fpath = ''src/a.js'', fsha = ''0cc175b9'', fsize = 870\<rparr>
   \<and> (\<exists>pre file post.
          [blob ''src/a.js'' ''c3ab8ff1'' 5300, blob ''src/a.js'' ''0cc175b9'' 870] = pre @ file # post
          \<and> \<lparr>fpath = ''src/a.js'', fsha = ''0cc175b9'', fsize = 870\<rparr> = mkFile file
          \<and> list_all (\<lambda>later. path later \<noteq> path file) post)"
proof -
  let ?e = "blob ''src/a.js'' ''c3ab8ff1'' 5300" and ?l = "blob ''src/a.js'' ''0cc175b9'' 870"
  let ?fl = "\<lparr>fpath = ''src/a.js'', fsha = ''0cc175b9'', fsize = 870\<rparr>"
  let ?t2 = "([(''src'', Folder [(''a.js'', File ?fl)] None)], None)"
  let ?t = "([(''src'', Folder [(''a.js'', File (mkFile ?e))] None)], None)"
  have built: "buildFileTree [] [?e] = Inr ?t"
    by (simp add: buildFileTree_def addFile_def blob_def mkFile_def objectPrototypeNames_def
        getProp.simps)
  have leaf: "leaf_at ?t (split_slash (path ?l)) (mkFile ?e)"
    by (simp add: blob_def)
  have kept: "\<not> isExcluded [] ?l" by simp
  from later_record_overwrites [of "[]" "[?e]" ?t _ _ ?l "mkFile ?e", THEN conjunct2] built leaf kept
  have over: "\<exists>tree'. buildFileTree [] ([?e] @ [?l]) = Inr tree'
          \<and> leaf_at tree' (split_slash (path ?l)) (mkFile ?l)" by blast
  have both: "buildFileTree [] [?e, ?l]
     = Inr ([(''src'', Folder [(''a.js'', File \<lparr>fpath = ''src/a.js'', fsha = ''0cc175b9'', fsize = 870\<rparr>)] None)], None)"
    by (simp add: buildFileTree_def addFile_def blob_def mkFile_def objectPrototypeNames_def
        getProp.simps)
  have leaf2: "leaf_at ?t2 [''src'', ''a.js''] ?fl" by simp
  from later_record_overwrites [of "[]" "[?e, ?l]" ?t2 "[''src'', ''a.js'']" ?fl, THEN conjunct1]
    both leaf2
  have last: "\<exists>pre file post. [?e, ?l] = pre @ file # post \<and> ?fl = mkFile file
          \<and> list_all (\<lambda>later. path later \<noteq> path file) post"
    by (simp add: list_all_iff) blast
  from built leaf kept over both leaf2 last show ?thesis by (intro conjI)
qed

subsection \<open>Errors of the tree builder\<close>

text \<open>
  C6 (the tree builder has no error conditions). The builder does have one: a folder
  whose name is a property that \<open>{}\<close> inherits, here \<open>constructor\<close>, is taken for an
  existing entry, its \<open>children\<close> is \<open>undefined\<close>, and storing the file below it
  throws a \<open>TypeError\<close>. The listing of a repository with a folder of that name makes
  \<open>buildFileTree\<close> throw under the default exclusions.
\<close>

theorem buildFileTree_inherited_name_throws:
  "buildFileTree defaultExcludedPaths [blob ''constructor/a.js'' ''3b18e512'' 12] = Inl TypeError"
  by (simp add: buildFileTree_def addFile_def isExcluded_def blob_def mkFile_def
      defaultExcludedPaths_def objectPrototypeNames_def getProp.simps)

text \<open>
  Empty segments, on the other hand, are no error: a leading and a trailing slash give
  folders and a file whose name is the empty string.
\<close>

lemma buildFileTree_empty_segments:
  "buildFileTree [] [blob ''/a/'' ''3b18e512'' 12] =
     Inr ([([], Folder [(''a'', Folder [([], File (mkFile (blob ''/a/'' ''3b18e512'' 12)))] None)] None)],
          None)"
  by (simp add: buildFileTree_def addFile_def isExcluded_def blob_def mkFile_def
      objectPrototypeNames_def getProp.simps)

subsection \<open>Files above the size limit\<close>

text \<open>
  C5. When the size of the selected file exceeds \<open>maxFileSize\<close>, \<open>selectFile\<close> shows
  the message that the file is too large and makes no request: the trace of requests is
  unchanged, and nothing else of the instance changes but the selection. With the limit
  100000, a file of 200000 bytes is such a file.
\<close>

theorem selectFile_too_large:
  "maxFileSize b < fileSize \<Longrightarrow>
     selectFile net filePath fileSize b =
       b\<lparr>viewer := Message (''File too large to display ('' @ formatFileSize fileSize
                              @ ''). Please view on GitHub.''),
         selected := Some filePath\<rparr>
     \<and> requests (selectFile net filePath fileSize b) = requests b"
  by (simp add: selectFile_def showFileViewer_def)

theorem selectFile_too_large_witness:
  "maxFileSize exampleBrowser < 200000
   \<and> selectFile offline ''Content/Map.umap'' 200000 exampleBrowser =
       exampleBrowser\<lparr>viewer := Message ''File too large to display (195.3 KB). Please view on GitHub.'',
                       selected := Some ''Content/Map.umap''\<rparr>
   \<and> requests (selectFile offline ''Content/Map.umap'' 200000 exampleBrowser) = []"
proof -
  have limit: "maxFileSize exampleBrowser < 200000"
    by (simp add: exampleBrowser_def)
  have shown: "formatFileSize 200000 = ''195.3 KB''"
    by (simp add: formatFileSize_def toFixed1_def showInt_def char_of_eq_iff)
  have "requests exampleBrowser = []"
    by (simp add: exampleBrowser_def)
  with selectFile_too_large [OF limit, of offline "''Content/Map.umap''"] limit shown
  show ?thesis by simp
qed

subsection \<open>The default exclusions\<close>

text \<open>
  C7 (without an excluded-paths configuration the default list applies, also on
  initialisation from the page). The handler passes the empty array when the attribute
  \<open>data-excluded-paths\<close> is absent, the constructor keeps it because an array is
  truthy, and nothing is excluded.
\<close>

theorem autoInit_without_attribute_excludes_nothing:
  "autoInit (\<lambda>s. None) exampleElement =
     Inr (Some (exampleBrowser\<lparr>excludedPaths := []\<rparr>))"
  by (simp add: autoInit_def exampleElement_def newBrowser_def matchHere_def stripGitSuffix_def
      exampleBrowser_def)

text \<open>
  The constructor itself falls back to the default list when the option
  \<open>excludedPaths\<close> is absent.
\<close>

theorem newBrowser_default_excludedPaths:
  "newBrowser found repoUrl opts = Some b \<Longrightarrow> optExcludedPaths opts = None \<Longrightarrow>
     excludedPaths b = defaultExcludedPaths"
  by (auto simp: newBrowser_def split: if_splits option.splits)

lemma newBrowser_default_example:
  "newBrowser True ''https://github.com/kealmcking/Portfolio''
     \<lparr>optBranch = None, optMaxFileSize = None, optExcludedPaths = None\<rparr> = Some exampleBrowser"
  by (simp add: newBrowser_def matchHere_def stripGitSuffix_def exampleBrowser_def)

theorem newBrowser_default_excludedPaths_witness:
  "newBrowser True ''https://github.com/kealmcking/Portfolio''
     \<lparr>optBranch = None, optMaxFileSize = None, optExcludedPaths = None\<rparr> = Some exampleBrowser
   \<and> optExcludedPaths \<lparr>optBranch = None, optMaxFileSize = None, optExcludedPaths = None\<rparr> = None
   \<and> excludedPaths exampleBrowser = defaultExcludedPaths"
proof -
  have absent: "optExcludedPaths \<lparr>optBranch = None, optMaxFileSize = None, optExcludedPaths = None\<rparr> = None"
    by simp
  from newBrowser_default_excludedPaths [OF newBrowser_default_example absent]
    newBrowser_default_example absent
  show ?thesis by (intro conjI)
qed

subsection \<open>The order of the rendered entries\<close>

text \<open>
  C3. For a locale comparison that is a consistent comparator, the list rendered for any
  object, and every list nested in it, is ordered: every folder entry stands before
  every file entry whatever the names are, and within the folders and within the files
  the names are in the order of the locale comparison. The names of a rendered list are
  the sorted keys, which are a permutation of the keys of the object.
\<close>

theorem createTreeElement_ordered:
  assumes "consistent localeCompare"
  shows "ordered_ul localeCompare (createTreeElement localeCompare tree prefix)
       \<and> (\<forall>e\<in>set (createTreeElement localeCompare tree prefix). all_ordered localeCompare e)
       \<and> map liName (createTreeElement localeCompare tree prefix) = entries localeCompare tree
       \<and> mset (entries localeCompare tree) = mset (objectKeys tree)"
  using assms
proof (induction localeCompare tree prefix rule: createTreeElement.induct)
  case (1 localeCompare props pr prefix)
  define li where "li = (\<lambda>name.
            case map_of props name of
              Some (Folder ch p) \<Rightarrow>
                FolderLi name (createTreeElement localeCompare (ch, p) (prefix @ name @ ''/''))
            | Some (File f) \<Rightarrow> FileLi name (fpath f) (fsize f)
            | None \<Rightarrow> FileLi name [] 0)"
  have ul: "createTreeElement localeCompare (props, pr) prefix = map li (entries localeCompare (props, pr))"
    unfolding li_def by (subst createTreeElement.simps) (rule refl)
  have name: "liName (li name) = name" for name
    by (simp add: li_def split: option.splits node.splits)
  have kind: "isFolderLi (li name) = isFolderAt (props, pr) name" for name
    by (simp add: li_def isFolderAt_def split: option.splits node.splits)
  have "ordered_ul localeCompare (map li (entries localeCompare (props, pr)))"
    using entries_sorted [OF "1.prems", of "(props, pr)"]
    by (simp add: ordered_ul_def sorted_wrt_map name kind)
  moreover have "all_ordered localeCompare (li name)"
    if "name \<in> set (entries localeCompare (props, pr))" for name
  proof (cases "map_of props name")
    case None
    then show ?thesis by (simp add: li_def)
  next
    case (Some nd)
    show ?thesis
    proof (cases nd)
      case (File f)
      with Some show ?thesis by (simp add: li_def)
    next
      case (Folder ch p)
      from "1.IH" [OF that Some Folder "1.prems"] Some Folder show ?thesis by (simp add: li_def)
    qed
  qed
  moreover have "map liName (map li (entries localeCompare (props, pr))) = entries localeCompare (props, pr)"
    by (simp add: name comp_def)
  ultimately show ?case unfolding ul by (simp add: entries_mset)
qed


lemma createTreeElement_example:
  "createTreeElement codeUnitCompare exampleTree [] =
     [FolderLi ''src''
        [FolderLi ''ui'' [FileLi ''Widget.h'' ''src/ui/Widget.h'' 870],
         FileLi ''main.cpp'' ''src/main.cpp'' 5300],
      FileLi ''README.md'' ''README.md'' 1200]"
  by (simp add: createTreeElement.simps entries_def objectKeys_def isArrayIndex_def isDigit_def
      decimal_def array_sort_def compareEntries_def isFolderAt_def exampleTree_def)

theorem createTreeElement_ordered_witness:
  "consistent codeUnitCompare
   \<and> ordered_ul codeUnitCompare (createTreeElement codeUnitCompare exampleTree [])
   \<and> createTreeElement codeUnitCompare exampleTree [] =
       [FolderLi ''src''
          [FolderLi ''ui'' [FileLi ''Widget.h'' ''src/ui/Widget.h'' 870],
           FileLi ''main.cpp'' ''src/main.cpp'' 5300],
        FileLi ''README.md'' ''README.md'' 1200]"
  using consistent_codeUnitCompare
    createTreeElement_ordered [OF consistent_codeUnitCompare, of exampleTree "[]", THEN conjunct1]
    createTreeElement_example
  by (intro conjI)

subsection \<open>Branch resolution\<close>

text \<open>
  C2 (when the attempt for the configured branch fails and the branch is \<open>main\<close>,
  loading retries once with \<open>master\<close>). As stated this fails: a request that is
  rejected is a failed attempt too, but \<open>await fetch(branchUrl)\<close> then throws before
  the response is tested, so for the branch \<open>main\<close> there is a single request, none
  for \<open>master\<close>, the branch field stays \<open>main\<close>, and the tree panel shows the
  message that loading failed.
\<close>

theorem rejected_main_request_not_retried:
  "branch exampleBrowser = ''main''
   \<and> getBranch offline (requests exampleBrowser) (branchUrl exampleBrowser) = Rejected
   \<and> requests (loadRepository codeUnitCompare offline exampleBrowser)
        = [''https://api.github.com/repos/kealmcking/Portfolio/branches/main'']
   \<and> branch (loadRepository codeUnitCompare offline exampleBrowser) = ''main''
   \<and> treePanel (loadRepository codeUnitCompare offline exampleBrowser)
        = TreeError ''Failed to load repository. Make sure the repository is public.''"
proof -
  have rej: "getBranch offline (requests exampleBrowser) (branchUrl exampleBrowser) = Rejected"
    by (simp add: offline_def)
  have "loadRepository codeUnitCompare offline exampleBrowser
          = loadFailed (exampleBrowser\<lparr>requests := requests exampleBrowser @ [branchUrl exampleBrowser]\<rparr>)"
    by (rule loadRepository_Inl [OF fetchRepositoryTree_Rejected [OF rej]])
  then show ?thesis
    using rej by (simp add: loadFailed_def exampleBrowser_def branchUrl_def)
qed

text \<open>
  C2, amended. Loading first requests the configured branch. When the response to that
  request is not ok and the branch is \<open>main\<close>, exactly one more branch request
  follows, for \<open>master\<close>, and the branch field becomes \<open>master\<close>; otherwise, also
  when the first request is rejected, there is no second branch request and the branch
  field is unchanged. Never are there more than two branch requests. When the first
  request is rejected, or is not ok for a branch other than \<open>main\<close>, or the retry with
  \<open>master\<close> does not deliver a tree id, and in general whenever
  \<open>fetchRepositoryTree\<close> throws, the tree panel shows the message that loading failed
  and the stored tree is left as it was.
\<close>

theorem branch_resolution:
  "(\<exists>rest. newRequests b (loadRepository lc net b) = branchUrl b # rest)
   \<and> (getBranch net (requests b) (branchUrl b) = NotOk st \<and> branch b = ''main'' \<longrightarrow>
        (\<exists>rest. newRequests b (loadRepository lc net b)
                  = branchUrl b # branchUrl (retryWithMaster b) # rest
               \<and> (\<forall>u\<in>set rest. \<not> isBranchRequest b u))
        \<and> branch (loadRepository lc net b) = ''master'')
   \<and> (\<not> (branch b = ''main'' \<and> (\<exists>st. getBranch net (requests b) (branchUrl b) = NotOk st)) \<longrightarrow>
        (\<exists>rest. newRequests b (loadRepository lc net b) = branchUrl b # rest
               \<and> (\<forall>u\<in>set rest. \<not> isBranchRequest b u))
        \<and> branch (loadRepository lc net b) = branch b)
   \<and> length (filter (isBranchRequest b) (newRequests b (loadRepository lc net b))) \<le> 2
   \<and> (getBranch net (requests b) (branchUrl b) = Rejected
        \<or> (getBranch net (requests b) (branchUrl b) = NotOk st \<and> branch b \<noteq> ''main'')
        \<or> (getBranch net (requests b) (branchUrl b) = NotOk st \<and> branch b = ''main''
             \<and> (\<forall>treeSha. getBranch net (requests (retryWithMaster b)) (branchUrl (retryWithMaster b))
                     \<noteq> Ok treeSha)) \<longrightarrow>
        loadRepository lc net b = loadFailed (snd (fetchRepositoryTree net b))
        \<and> fileTree (loadRepository lc net b) = fileTree b)
   \<and> (\<forall>e b'. fetchRepositoryTree net b = (Inl e, b') \<longrightarrow> loadRepository lc net b = loadFailed b')"
proof -
  let ?L = "loadRepository lc net b"
  note rb = loadRepository_requests_branch [of lc net b]
  have last: "\<forall>e b'. fetchRepositoryTree net b = (Inl e, b') \<longrightarrow> ?L = loadFailed b'"
    by (simp add: loadRepository_Inl)
  show ?thesis
  proof (cases "branch b = ''main'' \<and> (\<exists>st. getBranch net (requests b) (branchUrl b) = NotOk st)")
    case True
    then obtain st' where r1: "getBranch net (requests b) (branchUrl b) = NotOk st'"
      and main: "branch b = ''main''" by blast
    from retry_shape [OF r1 main] obtain res b' where
      f: "fetchRepositoryTree net b = (res, b')" and br: "branch b' = ''master''"
      and sh: "(requests b' = requests b @ [branchUrl b, branchUrl (retryWithMaster b)] \<and> (\<exists>e. res = Inl e)
                  \<and> (\<forall>treeSha. getBranch net (requests (retryWithMaster b)) (branchUrl (retryWithMaster b)) \<noteq> Ok treeSha))
               \<or> (\<exists>treeSha. getBranch net (requests (retryWithMaster b)) (branchUrl (retryWithMaster b)) = Ok treeSha
                     \<and> requests b' = requests b @ [branchUrl b, branchUrl (retryWithMaster b),
                                                    treeUrl (retryWithMaster b) treeSha])"
      by blast
    have ow: "owner (retryWithMaster b) = owner b" "repo (retryWithMaster b) = repo b"
      by (simp_all add: retryWithMaster_def)
    from sh obtain rest where
      nr: "newRequests b ?L = branchUrl b # branchUrl (retryWithMaster b) # rest"
      and rest: "\<forall>u\<in>set rest. \<not> isBranchRequest b u"
      and err: "(\<forall>treeSha. getBranch net (requests (retryWithMaster b)) (branchUrl (retryWithMaster b)) \<noteq> Ok treeSha)
                  \<longrightarrow> (\<exists>e. res = Inl e)"
    proof
      assume a: "requests b' = requests b @ [branchUrl b, branchUrl (retryWithMaster b)] \<and> (\<exists>e. res = Inl e)
                  \<and> (\<forall>treeSha. getBranch net (requests (retryWithMaster b)) (branchUrl (retryWithMaster b)) \<noteq> Ok treeSha)"
      with rb f have "newRequests b ?L = branchUrl b # branchUrl (retryWithMaster b) # []"
        by (simp add: newRequests_append)
      with a that show ?thesis by simp
    next
      assume "\<exists>treeSha. getBranch net (requests (retryWithMaster b)) (branchUrl (retryWithMaster b)) = Ok treeSha
                     \<and> requests b' = requests b @ [branchUrl b, branchUrl (retryWithMaster b),
                                                    treeUrl (retryWithMaster b) treeSha]"
      then obtain treeSha where ok: "getBranch net (requests (retryWithMaster b)) (branchUrl (retryWithMaster b)) = Ok treeSha"
        and rq: "requests b' = requests b @ [branchUrl b, branchUrl (retryWithMaster b),
                                                    treeUrl (retryWithMaster b) treeSha]" by blast
      from rq rb f have "newRequests b ?L
          = branchUrl b # branchUrl (retryWithMaster b) # [treeUrl (retryWithMaster b) treeSha]"
        by (simp add: newRequests_append)
      moreover have "\<not> isBranchRequest b (treeUrl (retryWithMaster b) treeSha)"
        by (rule isBranchRequest_treeUrl [OF ow])
      ultimately show ?thesis using that ok by simp
    qed
    have two: "isBranchRequest b (branchUrl b)" "isBranchRequest b (branchUrl (retryWithMaster b))"
      by (simp_all add: isBranchRequest_branchUrl ow)
    from rest have none: "filter (isBranchRequest b) rest = []" by (simp add: filter_empty_conv)
    from nr two none have count: "length (filter (isBranchRequest b) (newRequests b ?L)) \<le> 2" by simp
    from rb f br have master: "branch ?L = ''master''" by simp
    have fail: "(\<forall>treeSha. getBranch net (requests (retryWithMaster b)) (branchUrl (retryWithMaster b)) \<noteq> Ok treeSha)
          \<longrightarrow> ?L = loadFailed (snd (fetchRepositoryTree net b)) \<and> fileTree ?L = fileTree b"
    proof
      assume "\<forall>treeSha. getBranch net (requests (retryWithMaster b)) (branchUrl (retryWithMaster b)) \<noteq> Ok treeSha"
      with err obtain e where "res = Inl e" by blast
      with f have fe: "fetchRepositoryTree net b = (Inl e, b')" by simp
      from loadRepository_Inl [OF fe] loadRepository_failed_fields [OF fe] fe
      show "?L = loadFailed (snd (fetchRepositoryTree net b)) \<and> fileTree ?L = fileTree b" by simp
    qed
    from nr rest count master fail last True r1 show ?thesis by auto
  next
    case False
    then have "branch b \<noteq> ''main'' \<or> (\<forall>st. getBranch net (requests b) (branchUrl b) \<noteq> NotOk st)"
      by blast
    from attempt_shape [OF this] obtain res b' where
      f: "fetchRepositoryTree net b = (res, b')" and br: "branch b' = branch b"
      and sh: "(requests b' = requests b @ [branchUrl b] \<and> (\<exists>e. res = Inl e)
                  \<and> (\<forall>treeSha. getBranch net (requests b) (branchUrl b) \<noteq> Ok treeSha))
               \<or> (\<exists>treeSha. getBranch net (requests b) (branchUrl b) = Ok treeSha
                     \<and> requests b' = requests b @ [branchUrl b, treeUrl b treeSha])"
      by blast
    from sh obtain rest where
      nr: "newRequests b ?L = branchUrl b # rest"
      and rest: "\<forall>u\<in>set rest. \<not> isBranchRequest b u"
      and err: "(\<forall>treeSha. getBranch net (requests b) (branchUrl b) \<noteq> Ok treeSha) \<longrightarrow> (\<exists>e. res = Inl e)"
    proof
      assume a: "requests b' = requests b @ [branchUrl b] \<and> (\<exists>e. res = Inl e)
                  \<and> (\<forall>treeSha. getBranch net (requests b) (branchUrl b) \<noteq> Ok treeSha)"
      with rb f have "newRequests b ?L = branchUrl b # []" by (simp add: newRequests_append)
      with a that show ?thesis by simp
    next
      assume "\<exists>treeSha. getBranch net (requests b) (branchUrl b) = Ok treeSha
                     \<and> requests b' = requests b @ [branchUrl b, treeUrl b treeSha]"
      then obtain treeSha where ok: "getBranch net (requests b) (branchUrl b) = Ok treeSha"
        and rq: "requests b' = requests b @ [branchUrl b, treeUrl b treeSha]" by blast
      from rq rb f have "newRequests b ?L = branchUrl b # [treeUrl b treeSha]"
        by (simp add: newRequests_append)
      moreover have "\<not> isBranchRequest b (treeUrl b treeSha)"
        by (rule isBranchRequest_treeUrl [OF refl refl])
      ultimately show ?thesis using that ok by simp
    qed
    have one: "isBranchRequest b (branchUrl b)" by (simp add: isBranchRequest_branchUrl)
    from rest have none: "filter (isBranchRequest b) rest = []" by (simp add: filter_empty_conv)
    from nr one none have count: "length (filter (isBranchRequest b) (newRequests b ?L)) \<le> 2" by simp
    from rb f br have same: "branch ?L = branch b" by simp
    have fail: "getBranch net (requests b) (branchUrl b) = Rejected
        \<or> (getBranch net (requests b) (branchUrl b) = NotOk st \<and> branch b \<noteq> ''main'')
          \<longrightarrow> ?L = loadFailed (snd (fetchRepositoryTree net b)) \<and> fileTree ?L = fileTree b"
    proof
      assume "getBranch net (requests b) (branchUrl b) = Rejected
        \<or> (getBranch net (requests b) (branchUrl b) = NotOk st \<and> branch b \<noteq> ''main'')"
      then have "\<forall>treeSha. getBranch net (requests b) (branchUrl b) \<noteq> Ok treeSha" by auto
      with err obtain e where "res = Inl e" by blast
      with f have fe: "fetchRepositoryTree net b = (Inl e, b')" by simp
      from loadRepository_Inl [OF fe] loadRepository_failed_fields [OF fe] fe
      show "?L = loadFailed (snd (fetchRepositoryTree net b)) \<and> fileTree ?L = fileTree b" by simp
    qed
    from nr rest count same fail last False show ?thesis by auto
  qed
qed

lemma loadRepository_notFound:
  "loadRepository codeUnitCompare notFound exampleBrowser =
     exampleBrowser
       \<lparr>branch := ''master'',
        treePanel := TreeError ''Failed to load repository. Make sure the repository is public.'',
        requests := [''https://api.github.com/repos/kealmcking/Portfolio/branches/main'',
                     ''https://api.github.com/repos/kealmcking/Portfolio/branches/master'']\<rparr>"
proof -
  have r1: "getBranch notFound h u = NotOk ''Not Found''" for h u
    by (simp add: notFound_def)
  have "fetchRepositoryTree notFound exampleBrowser =
          fetchRepositoryTree notFound (retryWithMaster exampleBrowser)"
    unfolding retryWithMaster_def
    by (rule fetchRepositoryTree_NotOk_main [OF r1]) (simp add: exampleBrowser_def)
  also have "\<dots> = (Inl (HttpError (''Failed to fetch branch: '' @ ''Not Found'')),
       (retryWithMaster exampleBrowser)
         \<lparr>requests := requests (retryWithMaster exampleBrowser) @ [branchUrl (retryWithMaster exampleBrowser)]\<rparr>)"
    by (rule fetchRepositoryTree_NotOk_other [OF r1]) (simp add: retryWithMaster_def)
  finally show ?thesis
    by (simp add: loadRepository_def showError_def retryWithMaster_def exampleBrowser_def
        branchUrl_def)
qed

theorem branch_resolution_witness:
  "getBranch notFound (requests exampleBrowser) (branchUrl exampleBrowser) = NotOk ''Not Found''
   \<and> branch exampleBrowser = ''main''
   \<and> (\<exists>rest. newRequests exampleBrowser (loadRepository codeUnitCompare notFound exampleBrowser)
                = branchUrl exampleBrowser # branchUrl (retryWithMaster exampleBrowser) # rest
             \<and> list_all (\<lambda>u. \<not> isBranchRequest exampleBrowser u) rest)
   \<and> branch (loadRepository codeUnitCompare notFound exampleBrowser) = ''master''
   \<and> newRequests exampleBrowser (loadRepository codeUnitCompare notFound exampleBrowser)
        = [''https://api.github.com/repos/kealmcking/Portfolio/branches/main'',
           ''https://api.github.com/repos/kealmcking/Portfolio/branches/master'']
   \<and> treePanel (loadRepository codeUnitCompare notFound exampleBrowser)
        = TreeError ''Failed to load repository. Make sure the repository is public.''
   \<and> (\<forall>treeSha. getBranch notFound (requests (retryWithMaster exampleBrowser))
                    (branchUrl (retryWithMaster exampleBrowser)) \<noteq> Ok treeSha)
   \<and> loadRepository codeUnitCompare notFound exampleBrowser
        = loadFailed (snd (fetchRepositoryTree notFound exampleBrowser))
   \<and> fileTree (loadRepository codeUnitCompare notFound exampleBrowser) = fileTree exampleBrowser
   \<and> getBranch offline (requests exampleBrowser) (branchUrl exampleBrowser) = Rejected
   \<and> (\<exists>rest. newRequests exampleBrowser (loadRepository codeUnitCompare offline exampleBrowser)
                = branchUrl exampleBrowser # rest
             \<and> list_all (\<lambda>u. \<not> isBranchRequest exampleBrowser u) rest)
   \<and> branch (loadRepository codeUnitCompare offline exampleBrowser) = branch exampleBrowser
   \<and> loadRepository codeUnitCompare offline exampleBrowser
        = loadFailed (snd (fetchRepositoryTree offline exampleBrowser))
   \<and> fetchRepositoryTree offline exampleBrowser
        = (Inl FetchRejected, exampleBrowser\<lparr>requests := [branchUrl exampleBrowser]\<rparr>)
   \<and> loadRepository codeUnitCompare offline exampleBrowser
        = loadFailed (exampleBrowser\<lparr>requests := [branchUrl exampleBrowser]\<rparr>)"
proof -
  let ?N = "loadRepository codeUnitCompare notFound exampleBrowser"
  let ?O = "loadRepository codeUnitCompare offline exampleBrowser"
  have r1: "getBranch notFound (requests exampleBrowser) (branchUrl exampleBrowser) = NotOk ''Not Found''"
    by (simp add: notFound_def)
  have main: "branch exampleBrowser = ''main''" by (simp add: exampleBrowser_def)
  note n = branch_resolution [of exampleBrowser codeUnitCompare notFound "''Not Found''"]
  note off = branch_resolution [of exampleBrowser codeUnitCompare offline "''Not Found''"]
  from n [THEN conjunct2, THEN conjunct1] r1 main
  have retry: "(\<exists>rest. newRequests exampleBrowser ?N
                = branchUrl exampleBrowser # branchUrl (retryWithMaster exampleBrowser) # rest
             \<and> list_all (\<lambda>u. \<not> isBranchRequest exampleBrowser u) rest)
        \<and> branch ?N = ''master''"
    by (simp add: list_all_iff)
  have reqs: "newRequests exampleBrowser ?N
        = [''https://api.github.com/repos/kealmcking/Portfolio/branches/main'',
           ''https://api.github.com/repos/kealmcking/Portfolio/branches/master'']"
    unfolding newRequests_def loadRepository_notFound by (simp add: exampleBrowser_def)
  have panel: "treePanel ?N
        = TreeError ''Failed to load repository. Make sure the repository is public.''"
    by (simp add: loadRepository_notFound)
  have r2: "\<forall>treeSha. getBranch notFound (requests (retryWithMaster exampleBrowser))
                    (branchUrl (retryWithMaster exampleBrowser)) \<noteq> Ok treeSha"
    by (simp add: notFound_def)
  from n [THEN conjunct2, THEN conjunct2, THEN conjunct2, THEN conjunct2, THEN conjunct1] r1 main r2
  have second: "?N = loadFailed (snd (fetchRepositoryTree notFound exampleBrowser))
        \<and> fileTree ?N = fileTree exampleBrowser"
    by blast
  have rej: "getBranch offline (requests exampleBrowser) (branchUrl exampleBrowser) = Rejected"
    by (simp add: offline_def)
  then have "\<not> (branch exampleBrowser = ''main''
        \<and> (\<exists>st. getBranch offline (requests exampleBrowser) (branchUrl exampleBrowser) = NotOk st))"
    by simp
  with off [THEN conjunct2, THEN conjunct2, THEN conjunct1]
  have once: "(\<exists>rest. newRequests exampleBrowser ?O = branchUrl exampleBrowser # rest
             \<and> list_all (\<lambda>u. \<not> isBranchRequest exampleBrowser u) rest)
        \<and> branch ?O = branch exampleBrowser"
    by (simp add: list_all_iff)
  from off [THEN conjunct2, THEN conjunct2, THEN conjunct2, THEN conjunct2, THEN conjunct1] rej
  have failed: "?O = loadFailed (snd (fetchRepositoryTree offline exampleBrowser))"
    by blast
  have f: "fetchRepositoryTree offline exampleBrowser
        = (Inl FetchRejected, exampleBrowser\<lparr>requests := [branchUrl exampleBrowser]\<rparr>)"
    using fetchRepositoryTree_Rejected [OF rej] by (simp add: exampleBrowser_def)
  from off [THEN conjunct2, THEN conjunct2, THEN conjunct2, THEN conjunct2, THEN conjunct2] f
  have thrown: "?O = loadFailed (exampleBrowser\<lparr>requests := [branchUrl exampleBrowser]\<rparr>)"
    by blast
  note parts = r1 main retry [THEN conjunct1] retry [THEN conjunct2] reqs panel r2
    second [THEN conjunct1] second [THEN conjunct2] rej once [THEN conjunct1] once [THEN conjunct2]
    failed f thrown
  from parts show ?thesis by (intro conjI)
qed

subsection \<open>The branch of the content requests\<close>

text \<open>
  C10. Selecting files never changes the branch field, and every request it makes is
  the contents URL of the selected path with \<open>ref\<close> set to the branch field. When
  \<open>fetchRepositoryTree\<close> succeeds, the branch field holds the branch whose request was
  answered with a tree id. After the fallback from \<open>main\<close> the field holds
  \<open>master\<close>, and every later content request ends in \<open>?ref=master\<close>.
\<close>

theorem content_requests_use_resolved_branch:
  "branch (selectFiles net' clicks s) = branch s
   \<and> newRequests s (selectFiles net' clicks s)
       = map (\<lambda>c. contentsUrl s (fst c)) (filter (\<lambda>c. snd c \<le> maxFileSize s) clicks)
   \<and> (fetchRepositoryTree net b = (Inr files, b') \<longrightarrow>
        branch (loadRepository lc net b) = branch b'
        \<and> (\<exists>s0 treeSha. (s0 = b \<or> s0 = retryWithMaster b) \<and> branch s0 = branch b'
               \<and> getBranch net (requests s0) (branchUrl s0) = Ok treeSha))
   \<and> (getBranch net (requests b) (branchUrl b) = NotOk st \<and> branch b = ''main'' \<longrightarrow>
        branch (selectFiles net' clicks (loadRepository lc net b)) = ''master''
        \<and> newRequests (loadRepository lc net b) (selectFiles net' clicks (loadRepository lc net b))
            = map (\<lambda>c. ''https://api.github.com/repos/'' @ owner b @ ''/'' @ repo b @ ''/contents/''
                         @ fst c @ ''?ref=master'')
                (filter (\<lambda>c. snd c \<le> maxFileSize b) clicks))"
proof (intro conjI impI)
  show "branch (selectFiles net' clicks s) = branch s"
    by (simp add: selectFiles_fields)
  show "newRequests s (selectFiles net' clicks s)
       = map (\<lambda>c. contentsUrl s (fst c)) (filter (\<lambda>c. snd c \<le> maxFileSize s) clicks)"
    by (simp add: newRequests_def selectFiles_fields)
next
  assume f: "fetchRepositoryTree net b = (Inr files, b')"
  with loadRepository_requests_branch [of lc net b]
  show "branch (loadRepository lc net b) = branch b'" by simp
  show "\<exists>s0 treeSha. (s0 = b \<or> s0 = retryWithMaster b) \<and> branch s0 = branch b'
               \<and> getBranch net (requests s0) (branchUrl s0) = Ok treeSha"
  proof (cases "branch b = ''main'' \<and> (\<exists>st. getBranch net (requests b) (branchUrl b) = NotOk st)")
    case True
    then obtain st' where r1: "getBranch net (requests b) (branchUrl b) = NotOk st'"
      and main: "branch b = ''main''" by blast
    from retry_shape [OF r1 main] f obtain treeSha where
      "getBranch net (requests (retryWithMaster b)) (branchUrl (retryWithMaster b)) = Ok treeSha"
      "branch b' = ''master''" by auto
    moreover have "branch (retryWithMaster b) = ''master''" by (simp add: retryWithMaster_def)
    ultimately show ?thesis by auto
  next
    case False
    then have "branch b \<noteq> ''main'' \<or> (\<forall>st. getBranch net (requests b) (branchUrl b) \<noteq> NotOk st)"
      by blast
    from attempt_shape [OF this] f obtain treeSha where
      "getBranch net (requests b) (branchUrl b) = Ok treeSha" "branch b' = branch b" by auto
    then show ?thesis by auto
  qed
next
  let ?L = "loadRepository lc net b"
  assume a: "getBranch net (requests b) (branchUrl b) = NotOk st \<and> branch b = ''main''"
  then have r1: "getBranch net (requests b) (branchUrl b) = NotOk st" and main: "branch b = ''main''"
    by simp_all
  from retry_shape [OF r1 main] loadRepository_requests_branch [of lc net b]
  have master: "branch ?L = ''master''" by auto
  then show "branch (selectFiles net' clicks ?L) = ''master''"
    by (simp add: selectFiles_fields)
  have "contentsUrl ?L p = ''https://api.github.com/repos/'' @ owner b @ ''/'' @ repo b @ ''/contents/''
                         @ p @ ''?ref=master''" for p
    by (simp add: contentsUrl_def master loadRepository_fields)
  then show "newRequests ?L (selectFiles net' clicks ?L)
            = map (\<lambda>c. ''https://api.github.com/repos/'' @ owner b @ ''/'' @ repo b @ ''/contents/''
                         @ fst c @ ''?ref=master'')
                (filter (\<lambda>c. snd c \<le> maxFileSize b) clicks)"
    by (simp add: newRequests_def selectFiles_fields loadRepository_fields)
qed

lemma loadRepository_masterOnly:
  "fetchRepositoryTree masterOnly exampleBrowser =
     (Inr exampleFiles,
      exampleBrowser
        \<lparr>branch := ''master'',
         requests := [''https://api.github.com/repos/kealmcking/Portfolio/branches/main'',
                      ''https://api.github.com/repos/kealmcking/Portfolio/branches/master'',
                      ''https://api.github.com/repos/kealmcking/Portfolio/git/trees/4b825dc6?recursive=1'']\<rparr>)
   \<and> fileTree (loadRepository codeUnitCompare masterOnly exampleBrowser) = Some exampleTree"
proof -
  let ?r = "retryWithMaster exampleBrowser"
  have r1: "getBranch masterOnly (requests exampleBrowser) (branchUrl exampleBrowser) = NotOk ''Not Found''"
    by (simp add: masterOnly_def exampleBrowser_def branchUrl_def)
  have r2: "getBranch masterOnly (requests ?r) (branchUrl ?r) = Ok ''4b825dc6''"
    by (simp add: masterOnly_def exampleBrowser_def branchUrl_def retryWithMaster_def)
  have "filter (\<lambda>item. itype item = ''blob'') exampleFiles = exampleFiles"
    by (simp add: exampleFiles_def blob_def)
  then have blobs: "filter (\<lambda>item. itype item = ''blob'')
                 (\<lparr>path = ''src'', itype = ''tree'', sha = ''9d1dcfda'', size_bytes = 0\<rparr> # exampleFiles)
               = exampleFiles"
    by simp
  have "fetchRepositoryTree masterOnly exampleBrowser = fetchRepositoryTree masterOnly ?r"
    unfolding retryWithMaster_def
    by (rule fetchRepositoryTree_NotOk_main [OF r1]) (simp add: exampleBrowser_def)
  also have "\<dots> = (Inr exampleFiles,
        ?r\<lparr>requests := requests ?r @ [branchUrl ?r, treeUrl ?r ''4b825dc6'']\<rparr>)"
    unfolding fetchRepositoryTree_Ok [OF r2] using blobs by (simp add: masterOnly_def)
  finally have f: "fetchRepositoryTree masterOnly exampleBrowser = (Inr exampleFiles,
        ?r\<lparr>requests := requests ?r @ [branchUrl ?r, treeUrl ?r ''4b825dc6'']\<rparr>)" .
  have ex: "excludedPaths (?r\<lparr>requests := requests ?r @ [branchUrl ?r, treeUrl ?r ''4b825dc6'']\<rparr>)
              = defaultExcludedPaths"
    by (simp add: retryWithMaster_def exampleBrowser_def)
  have "fileTree (loadRepository codeUnitCompare masterOnly exampleBrowser) = Some exampleTree"
    unfolding loadRepository_def f by (simp add: ex buildFileTree_example renderFileTree_def)
  moreover from f have "fetchRepositoryTree masterOnly exampleBrowser =
     (Inr exampleFiles,
      exampleBrowser
        \<lparr>branch := ''master'',
         requests := [''https://api.github.com/repos/kealmcking/Portfolio/branches/main'',
                      ''https://api.github.com/repos/kealmcking/Portfolio/branches/master'',
                      ''https://api.github.com/repos/kealmcking/Portfolio/git/trees/4b825dc6?recursive=1'']\<rparr>)"
    by (simp add: retryWithMaster_def exampleBrowser_def branchUrl_def treeUrl_def)
  ultimately show ?thesis by simp
qed

theorem content_requests_use_resolved_branch_witness:
  "getBranch masterOnly (requests exampleBrowser) (branchUrl exampleBrowser) = NotOk ''Not Found''
   \<and> branch exampleBrowser = ''main''
   \<and> fileTree (loadRepository codeUnitCompare masterOnly exampleBrowser) = Some exampleTree
   \<and> branch (selectFiles masterOnly [(''README.md'', 1200), (''src/main.cpp'', 5300)]
               (loadRepository codeUnitCompare masterOnly exampleBrowser)) = ''master''
   \<and> newRequests (loadRepository codeUnitCompare masterOnly exampleBrowser)
        (selectFiles masterOnly [(''README.md'', 1200), (''src/main.cpp'', 5300)]
           (loadRepository codeUnitCompare masterOnly exampleBrowser))
       = [''https://api.github.com/repos/kealmcking/Portfolio/contents/README.md?ref=master'',
          ''https://api.github.com/repos/kealmcking/Portfolio/contents/src/main.cpp?ref=master'']
   \<and> fetchRepositoryTree masterOnly exampleBrowser =
       (Inr exampleFiles,
        exampleBrowser
          \<lparr>branch := ''master'',
           requests := [''https://api.github.com/repos/kealmcking/Portfolio/branches/main'',
                        ''https://api.github.com/repos/kealmcking/Portfolio/branches/master'',
                        ''https://api.github.com/repos/kealmcking/Portfolio/git/trees/4b825dc6?recursive=1'']\<rparr>)
   \<and> branch (loadRepository codeUnitCompare masterOnly exampleBrowser) = ''master''
   \<and> (\<exists>s0 treeSha. (s0 = exampleBrowser \<or> s0 = retryWithMaster exampleBrowser)
          \<and> branch s0 = ''master''
          \<and> getBranch masterOnly (requests s0) (branchUrl s0) = Ok treeSha)"
proof -
  let ?b' = "exampleBrowser
          \<lparr>branch := ''master'',
           requests := [''https://api.github.com/repos/kealmcking/Portfolio/branches/main'',
                        ''https://api.github.com/repos/kealmcking/Portfolio/branches/master'',
                        ''https://api.github.com/repos/kealmcking/Portfolio/git/trees/4b825dc6?recursive=1'']\<rparr>"
  have r1: "getBranch masterOnly (requests exampleBrowser) (branchUrl exampleBrowser) = NotOk ''Not Found''"
    by (simp add: masterOnly_def exampleBrowser_def branchUrl_def)
  have main: "branch exampleBrowser = ''main''" by (simp add: exampleBrowser_def)
  note all = content_requests_use_resolved_branch
      [of masterOnly "[(''README.md'', 1200), (''src/main.cpp'', 5300)]" exampleBrowser masterOnly
          exampleBrowser exampleFiles ?b' codeUnitCompare "''Not Found''"]
  note inst = all [THEN conjunct2, THEN conjunct2, THEN conjunct2, rule_format, OF conjI [OF r1 main]]
  have fields: "owner exampleBrowser = ''kealmcking''" "repo exampleBrowser = ''Portfolio''"
    "maxFileSize exampleBrowser = 100000" by (simp_all add: exampleBrowser_def)
  from inst have sel: "branch (selectFiles masterOnly [(''README.md'', 1200), (''src/main.cpp'', 5300)]
               (loadRepository codeUnitCompare masterOnly exampleBrowser)) = ''master''"
    and reqs: "newRequests (loadRepository codeUnitCompare masterOnly exampleBrowser)
        (selectFiles masterOnly [(''README.md'', 1200), (''src/main.cpp'', 5300)]
           (loadRepository codeUnitCompare masterOnly exampleBrowser))
       = [''https://api.github.com/repos/kealmcking/Portfolio/contents/README.md?ref=master'',
          ''https://api.github.com/repos/kealmcking/Portfolio/contents/src/main.cpp?ref=master'']"
    by (simp_all add: fields)
  note f = loadRepository_masterOnly [THEN conjunct1]
  note tree = loadRepository_masterOnly [THEN conjunct2]
  have b': "branch ?b' = ''master''" by simp
  from all [THEN conjunct2, THEN conjunct2, THEN conjunct1, rule_format, OF f]
  have resolved: "branch (loadRepository codeUnitCompare masterOnly exampleBrowser) = ''master''"
    and answered: "\<exists>s0 treeSha. (s0 = exampleBrowser \<or> s0 = retryWithMaster exampleBrowser)
          \<and> branch s0 = ''master''
          \<and> getBranch masterOnly (requests s0) (branchUrl s0) = Ok treeSha"
    unfolding b' by blast+
  from r1 main tree sel reqs f resolved answered show ?thesis by (intro conjI)
qed

subsection \<open>Decoding the content of a file\<close>

lemma atob_hello: "atob ''aGVsbG8='' = Inr ''hello''"
  by (simp add: atob_def stripPadding_def isAsciiWhitespace_def b64_value_def char_of_eq_iff)

text \<open>
  C8. For a file within the size limit, a response that is ok and not marked
  \<open>base64\<close> is displayed as it is, and one marked \<open>base64\<close> is displayed decoded by
  \<open>atob\<close>; the content \<open>aGVsbG8=\<close> decodes to \<open>hello\<close>. When the request is
  rejected, or the response is not ok, or decoding throws, the viewer shows the message
  that the file failed to load.
\<close>

theorem file_content_decoding:
  "(fileSize \<le> maxFileSize b
      \<and> getContents net (requests b) (contentsUrl b filePath) = Ok (encoding, content)
      \<and> encoding \<noteq> ''base64'' \<longrightarrow>
        viewer (selectFile net filePath fileSize b) = FileDisplayed filePath content)
   \<and> (fileSize \<le> maxFileSize b
      \<and> getContents net (requests b) (contentsUrl b filePath) = Ok (''base64'', content)
      \<and> atob content = Inr decoded \<longrightarrow>
        viewer (selectFile net filePath fileSize b) = FileDisplayed filePath decoded)
   \<and> atob ''aGVsbG8='' = Inr ''hello''
   \<and> (fileSize \<le> maxFileSize b
      \<and> (getContents net (requests b) (contentsUrl b filePath) = Rejected
           \<or> getContents net (requests b) (contentsUrl b filePath) = NotOk statusText
           \<or> (getContents net (requests b) (contentsUrl b filePath) = Ok (''base64'', content)
                \<and> atob content = Inl e)) \<longrightarrow>
        viewer (selectFile net filePath fileSize b)
          = Message ''Failed to load file. Please try again or view on GitHub.'')"
  by (auto simp: selectFile_def fetchFileContent_def showFileViewer_def displayFile_def Let_def
      contentsUrl_def atob_hello)

theorem file_content_decoding_witness:
  "1200 \<le> maxFileSize exampleBrowser
   \<and> getContents masterOnly (requests exampleBrowser) (contentsUrl exampleBrowser ''README.md'')
       = Ok (''base64'', ''aGVsbG8='')
   \<and> atob ''aGVsbG8='' = Inr ''hello''
   \<and> viewer (selectFile masterOnly ''README.md'' 1200 exampleBrowser) = FileDisplayed ''README.md'' ''hello''
   \<and> getContents offline (requests exampleBrowser) (contentsUrl exampleBrowser ''README.md'') = Rejected
   \<and> viewer (selectFile offline ''README.md'' 1200 exampleBrowser)
       = Message ''Failed to load file. Please try again or view on GitHub.''
   \<and> getContents notFound (requests exampleBrowser) (contentsUrl exampleBrowser ''README.md'')
       = NotOk ''Not Found''
   \<and> viewer (selectFile notFound ''README.md'' 1200 exampleBrowser)
       = Message ''Failed to load file. Please try again or view on GitHub.''
   \<and> getContents (offline\<lparr>getContents := \<lambda>h u. Ok (''none'', ''hello'')\<rparr>) (requests exampleBrowser)
         (contentsUrl exampleBrowser ''README.md'')
       = Ok (''none'', ''hello'')
   \<and> ''none'' \<noteq> ''base64''
   \<and> viewer (selectFile (offline\<lparr>getContents := \<lambda>h u. Ok (''none'', ''hello'')\<rparr>) ''README.md'' 1200
               exampleBrowser)
       = FileDisplayed ''README.md'' ''hello''"
proof -
  let ?plain = "offline\<lparr>getContents := \<lambda>h u. Ok (''none'', ''hello'')\<rparr>"
  have sz: "1200 \<le> maxFileSize exampleBrowser" by (simp add: exampleBrowser_def)
  have ok: "getContents masterOnly (requests exampleBrowser) (contentsUrl exampleBrowser ''README.md'')
       = Ok (''base64'', ''aGVsbG8='')" by (simp add: masterOnly_def)
  have rej: "getContents offline (requests exampleBrowser) (contentsUrl exampleBrowser ''README.md'') = Rejected"
    by (simp add: offline_def)
  have nok: "getContents notFound (requests exampleBrowser) (contentsUrl exampleBrowser ''README.md'')
       = NotOk ''Not Found''" by (simp add: notFound_def)
  have raw: "getContents ?plain (requests exampleBrowser) (contentsUrl exampleBrowser ''README.md'')
       = Ok (''none'', ''hello'')" by simp
  have enc: "''none'' \<noteq> ''base64''" by simp
  note a = file_content_decoding [of 1200 exampleBrowser masterOnly "''README.md''" "''base64''"
      "''aGVsbG8=''" "''hello''" "[]" TypeError]
  note b = file_content_decoding [of 1200 exampleBrowser offline "''README.md''" "''base64''"
      "''aGVsbG8=''" "''hello''" "[]" TypeError]
  note c = file_content_decoding [of 1200 exampleBrowser notFound "''README.md''" "''base64''"
      "''aGVsbG8=''" "''hello''" "''Not Found''" TypeError]
  note d = file_content_decoding [of 1200 exampleBrowser ?plain "''README.md''" "''none''"
      "''hello''" "''hello''" "[]" TypeError]
  from a have dec: "atob ''aGVsbG8='' = Inr ''hello''" by (rule conjunct2 [THEN conjunct2, THEN conjunct1])
  from a [THEN conjunct2, THEN conjunct1] sz ok dec
  have shown: "viewer (selectFile masterOnly ''README.md'' 1200 exampleBrowser) = FileDisplayed ''README.md'' ''hello''"
    by blast
  from b [THEN conjunct2, THEN conjunct2, THEN conjunct2] sz rej
  have failed: "viewer (selectFile offline ''README.md'' 1200 exampleBrowser)
       = Message ''Failed to load file. Please try again or view on GitHub.''" by blast
  from c [THEN conjunct2, THEN conjunct2, THEN conjunct2] sz nok
  have missing: "viewer (selectFile notFound ''README.md'' 1200 exampleBrowser)
       = Message ''Failed to load file. Please try again or view on GitHub.''" by blast
  from d [THEN conjunct1] sz raw enc
  have asis: "viewer (selectFile ?plain ''README.md'' 1200 exampleBrowser)
       = FileDisplayed ''README.md'' ''hello''" by blast
  from sz ok dec shown rej failed nok missing raw enc asis show ?thesis by (intro conjI)
qed

end
